theory Spec2Isabelle
  imports Main
begin

section \<open>Data model of the non-conforming submesh construction\<close>

text \<open>
  This development embeds the constructor \<^verbatim>\<open>ParNCSubMesh::ParNCSubMesh\<close> of
  \<^verbatim>\<open>mesh/submesh/pncsubmesh.cpp\<close>. The C++ \<^verbatim>\<open>int\<close> values are ids, ranks and
  attributes; the only arithmetic on them is the comparison, \<^verbatim>\<open>std::min\<close> and the
  increment of the id counter, so they are modelled as \<^typ>\<open>int\<close>, with
  \<^verbatim>\<open>std::numeric_limits<int>::max()\<close> written out as a constant. Positions in
  arrays that the source fills with \<^verbatim>\<open>std::iota\<close> are natural numbers.

  \<^verbatim>\<open>MFEM_ASSERT\<close> is modelled as it behaves in a build with \<^verbatim>\<open>MFEM_DEBUG\<close>: a
  failed assertion aborts, which is the value \<open>Inl\<close> of an error. A read or write
  outside an array is the error \<open>OutOfRange\<close>, a read of a local array entry that
  was never written is the error \<open>UninitializedRead\<close>.
\<close>

datatype error =
    OutOfRange
  | NodeAlreadyKnown
  | VertexNodeMissing
  | ShouldNotBeNew
  | EdgeNotFound
  | KeyMissing
  | InternalNCBoundary
  | SizeMismatch
  | UninitializedRead

text \<open>The geometry tags used by the mesh (\<^verbatim>\<open>Geometry::Type\<close>).\<close>

datatype Geometry = POINT | SEGMENT | TRIANGLE | SQUARE | TETRAHEDRON | CUBE | PRISM | PYRAMID

text \<open>
  \<^verbatim>\<open>std::array<int, MaxFaceNodes>\<close>: the source reads the entries 0 to 3 of it and
  passes four of them to \<^verbatim>\<open>FindId\<close>, so the array has exactly four entries.
\<close>

datatype FaceNodes = FaceNodes int int int int

fun nodes :: "FaceNodes \<Rightarrow> int list" where
  "nodes (FaceNodes n0 n1 n2 n3) = [n0, n1, n2, n3]"

definition MaxFaceNodes :: nat where
  "MaxFaceNodes = 4"

text \<open>
  Modelled from the spec: the struct \<^verbatim>\<open>NCMesh::Element\<close> is declared in
  \<^verbatim>\<open>ncmesh.hpp\<close>, which is not among the sources. The specification's data model
  gives an element a geometry type, an attribute tag, an owning rank, a parent reference
  (\<open>-1\<close> for a root), child references (valid if internal), node references (valid
  if leaf), a refinement-type tag and an index. The fields carry the names the
  constructor uses for them.
\<close>

record Element =
  geom :: Geometry
  ref_type :: int
  index :: int
  rank :: int
  attribute :: int
  node :: "int list"
  child :: "int list"
  parent :: int

text \<open>
  Modelled from the spec: \<^verbatim>\<open>Element::IsLeaf\<close> is declared with the struct. The
  constructor makes an element internal by assigning it a refinement tag
  (\<^verbatim>\<open>Refinement::XY\<close> or \<^verbatim>\<open>Refinement::X\<close>, line 335); an element whose tag is
  zero is a leaf.
\<close>

definition IsLeaf :: "Element \<Rightarrow> bool" where
  "IsLeaf e = (ref_type e = 0)"

definition INT_MAX :: int where
  "INT_MAX = 2147483647"

text \<open>
  The fields of the object under construction that the modelled passes read or write.
  The names of the four identity maps end in an underscore in the source.
\<close>

record ParNCSubMesh =
  MyRank :: int
  NRanks :: int
  elements :: "Element list"
  parent_element_ids :: "int list"
  parent_to_submesh_element_ids :: "int \<rightharpoonup> int"
  parent_node_ids :: "int list"
  parent_to_submesh_node_ids :: "int \<rightharpoonup> int"

subsection \<open>Geometry of a face from its node pattern\<close>

text \<open>
  The lambda \<^verbatim>\<open>face_geom_from_nodes\<close> (lines 169 to 174): the test of the fourth
  node comes first, the test of the two node pairs second.
\<close>

fun face_geom_from_nodes :: "FaceNodes \<Rightarrow> Geometry" where
  "face_geom_from_nodes (FaceNodes n0 n1 n2 n3) =
     (if n3 = -1 then TRIANGLE
      else if n0 = n1 \<and> n2 = n3 then SEGMENT
      else SQUARE)"

text \<open>
  The rule in the order in which the specification words it: segment if the node pairs
  are equal, else triangle if the fourth node is \<open>-1\<close>, else quadrilateral. The node
  pairs are the ones the source compares (entries 0 and 1, entries 2 and 3).
\<close>

fun face_geom_spec :: "FaceNodes \<Rightarrow> Geometry" where
  "face_geom_spec (FaceNodes n0 n1 n2 n3) =
     (if n0 = n1 \<and> n2 = n3 then SEGMENT
      else if n3 = -1 then TRIANGLE
      else SQUARE)"

text \<open>
  Modelled from the spec: the tuples that the pass gives to the lambda come from
  \<^verbatim>\<open>FindFaceNodes\<close> and \<^verbatim>\<open>ParentFaceNodes\<close>, which are not among the sources. The
  specification has a face keyed by up to four node ids, the fourth being \<open>-1\<close> for a
  triangular face: the first three entries are node ids, which are not negative, and the
  fourth is a node id or \<open>-1\<close>.
\<close>

fun face_tuple :: "FaceNodes \<Rightarrow> bool" where
  "face_tuple (FaceNodes n0 n1 n2 n3) = (0 \<le> n0 \<and> 0 \<le> n1 \<and> 0 \<le> n2 \<and> -1 \<le> n3)"

subsection \<open>The identity registry\<close>

text \<open>
  Modelled from the spec: \<^verbatim>\<open>UniqueIndexGenerator\<close> and its \<^verbatim>\<open>Get\<close> are defined in
  \<^verbatim>\<open>submesh_utils.hpp\<close>, which is not among the sources. The specification gives the
  contract \<^verbatim>\<open>get(parent_id) -> (submesh_id, is_new_flag)\<close>: the first call for a parent id
  allocates the next unused contiguous submesh id and returns \<open>is_new = true\<close>; later
  calls for the same parent id return the id allocated before with \<open>is_new = false\<close>;
  there is no removal. The registry is a counter of the ids given out and a dictionary from
  parent ids to submesh ids.
\<close>

record UniqueIndexGenerator =
  counter :: int
  idx :: "int \<rightharpoonup> int"

definition empty_generator :: UniqueIndexGenerator where
  "empty_generator = \<lparr>counter = 0, idx = Map.empty\<rparr>"

text \<open>
  Modelled from the spec: \<^verbatim>\<open>UniqueIndexGenerator::Get\<close>, called as
  \<^verbatim>\<open>node_ids.Get(n, new_node)\<close>; the source of the function is missing. It returns the
  submesh id and the flag of the contract above, together with the registry after the call.
\<close>

definition Get :: "UniqueIndexGenerator \<Rightarrow> int \<Rightarrow> (int \<times> bool) \<times> UniqueIndexGenerator" where
  "Get g i =
     (case idx g i of
        None \<Rightarrow> ((counter g, True), g\<lparr>counter := counter g + 1, idx := (idx g)(i \<mapsto> counter g)\<rparr>)
      | Some j \<Rightarrow> ((j, False), g))"

text \<open>A sequence of calls, of which only the effect on the registry is kept.\<close>

definition Gets :: "UniqueIndexGenerator \<Rightarrow> int list \<Rightarrow> UniqueIndexGenerator" where
  "Gets g is = fold (\<lambda>i g. snd (Get g i)) is g"

text \<open>The counter is the number of ids that the dictionary holds.\<close>

definition counts :: "UniqueIndexGenerator \<Rightarrow> bool" where
  "counts g = (finite (dom (idx g)) \<and> counter g = int (card (dom (idx g))))"

subsection \<open>Loops that can abort\<close>

text \<open>A \<^verbatim>\<open>for\<close> loop over a range whose body can abort: the first error ends the loop.\<close>

fun foldE :: "('a \<Rightarrow> 's \<Rightarrow> error + 's) \<Rightarrow> 'a list \<Rightarrow> 's \<Rightarrow> error + 's" where
  "foldE f [] s = Inr s"
| "foldE f (x # xs) s = (case f x s of Inl e \<Rightarrow> Inl e | Inr s' \<Rightarrow> foldE f xs s')"

text \<open>
  \<^verbatim>\<open>std::set<int>\<close> as the increasing list of its members; \<^verbatim>\<open>insert\<close> leaves the
  set as it is when the value is a member already.
\<close>

definition set_insert :: "int \<Rightarrow> int list \<Rightarrow> int list" where
  "set_insert x xs = (if x \<in> set xs then xs else insort x xs)"

subsection \<open>The parent mesh and the owning submesh\<close>

text \<open>
  Modelled from the spec: the per-geometry table \<^verbatim>\<open>GI\<close> (\<^verbatim>\<open>ncmesh_tables.hpp\<close>) is not
  among the sources. The specification lists, per geometry, the vertex count and the edge
  list as pairs of local node indices; \<^verbatim>\<open>ne\<close> is the length of that list.
\<close>

record GeomInfo =
  nv :: nat
  edges :: "(nat \<times> nat) list"

text \<open>A face of the parent mesh: the fields the constructor reads.\<close>

record Face =
  face_unused :: bool
  face_attribute :: int
  face_elem0 :: int
  face_elem1 :: int
  face_index :: int

text \<open>\<^verbatim>\<open>NCList::MeshIdType\<close>: how the face list classifies a face.\<close>

datatype MeshIdType = UNRECOGNIZED | CONFORMING | MASTER | SLAVE

text \<open>
  The parent mesh, \<^verbatim>\<open>const ParNCMesh &parent\<close>. Its member functions and tables are
  defined outside the sources and are carried as they are consumed: the element array, the
  slots of the face table up to the last used one (\<^verbatim>\<open>faces.Size()\<close> counts the used
  slots, and the loop of line 201 walks the slots until it has met that many), the lookups
  \<^verbatim>\<open>nodes.FindId\<close> and \<^verbatim>\<open>faces.FindId\<close>, \<^verbatim>\<open>FindFaceNodes\<close>, \<^verbatim>\<open>ParentFaceNodes\<close> (which overwrites its argument with the
  nodes of the coarser face and returns the child slot), the classification of the face list,
  \<^verbatim>\<open>vertex_nodeId\<close>, the static tables \<^verbatim>\<open>GI\<close> and \<^verbatim>\<open>ref_type_num_children\<close>,
  and the element constructor \<^verbatim>\<open>NCMesh::Element(geom, attr)\<close>.
\<close>

record ParNCMesh =
  parent_elements :: "Element list"
  parent_faces :: "Face list"
  nodes_FindId :: "int \<Rightarrow> int \<Rightarrow> int"
  faces_FindId :: "int \<Rightarrow> int \<Rightarrow> int \<Rightarrow> int \<Rightarrow> int"
  FindFaceNodes :: "Face \<Rightarrow> FaceNodes"
  ParentFaceNodes :: "FaceNodes \<Rightarrow> int \<times> FaceNodes"
  GetMeshIdType :: "int \<Rightarrow> MeshIdType"
  vertex_nodeId :: "int list"
  GI :: "Geometry \<Rightarrow> GeomInfo"
  ref_type_num_children :: "int \<Rightarrow> nat"
  new_Element :: "Geometry \<Rightarrow> int \<Rightarrow> Element"

text \<open>
  The owning submesh, \<^verbatim>\<open>ParSubMesh& submesh\<close>: its dimension, its map from parent
  element indices to submesh element indices, and the parent vertex of each of its vertices.
\<close>

record ParSubMesh =
  Dimension :: int
  GetSubMeshElementFromParent :: "int \<Rightarrow> int"
  GetParentVertexIDMap :: "int list"

text \<open>The object as the base class constructor \<^verbatim>\<open>ParNCMesh()\<close> leaves it.\<close>

definition fresh_submesh :: "int \<Rightarrow> int \<Rightarrow> ParNCSubMesh" where
  "fresh_submesh me nr =
     \<lparr>MyRank = me, NRanks = nr, elements = [], parent_element_ids = [],
      parent_to_submesh_element_ids = Map.empty, parent_node_ids = [],
      parent_to_submesh_node_ids = Map.empty\<rparr>"

text \<open>
  Modelled from the spec: \<^verbatim>\<open>HasAttribute\<close> (\<^verbatim>\<open>submesh_utils.hpp\<close>) is not among the
  sources. The specification selects the elements and faces whose attribute is in the
  requested set.
\<close>

definition HasAttribute :: "int \<Rightarrow> int list \<Rightarrow> bool" where
  "HasAttribute a attributes = (a \<in> set attributes)"

text \<open>
  Modelled from the spec: \<^verbatim>\<open>NCMesh::AddElement\<close> is not among the sources. The
  specification has the element copied into the submesh element array; the constructor uses
  the returned value as the position of the new element, and in the fresh object no
  position is free for reuse.
\<close>

definition AddElement :: "Element \<Rightarrow> ParNCSubMesh \<Rightarrow> nat \<times> ParNCSubMesh" where
  "AddElement e m = (length (elements m), m\<lparr>elements := elements m @ [e]\<rparr>)"

subsection \<open>The domain pass\<close>

text \<open>
  The body of the first walk over the parent elements (lines 60 to 82). The state is the
  object and the local set \<^verbatim>\<open>new_nodes\<close>.
\<close>

definition collect_parent_element ::
  "ParNCMesh \<Rightarrow> ParSubMesh \<Rightarrow> int list \<Rightarrow> nat \<Rightarrow> ParNCSubMesh \<times> int list \<Rightarrow>
   error + ParNCSubMesh \<times> int list" where
  "collect_parent_element P S attributes ipe s =
     (let pe = parent_elements P ! ipe; new_nodes = snd s in
      if \<not> HasAttribute (attribute pe) attributes then Inr s
      else
        let (elem_id, m1) = AddElement pe (fst s);
            el = (elements m1 ! elem_id)\<lparr>index := GetSubMeshElementFromParent S (index pe)\<rparr>;
            m2 = m1\<lparr>elements := (elements m1)[elem_id := el],
                    parent_element_ids := parent_element_ids m1 @ [int ipe],
                    parent_to_submesh_element_ids :=
                      (parent_to_submesh_element_ids m1)(int ipe \<mapsto> int elem_id)\<rparr>
        in if \<not> IsLeaf pe then Inr (m2, new_nodes)
           else
             let gi = GI P (geom pe) in
             if \<not> nv gi \<le> length (node el) then Inl OutOfRange
             else if \<not> list_all (\<lambda>e. fst e < length (node el) \<and> snd e < length (node el)) (edges gi)
             then Inl OutOfRange
             else
               Inr (m2,
                    fold (\<lambda>e ns. set_insert (nodes_FindId P (node el ! fst e) (node el ! snd e)) ns)
                      (edges gi)
                      (fold (\<lambda>n ns. set_insert (node el ! n) ns) [0..<nv gi] new_nodes)))"

text \<open>
  The body of the loop over \<^verbatim>\<open>new_nodes\<close> (lines 86 to 95, and again lines 364 to 372):
  the id is registered, the assertion asks for it to be new, and the two node maps get the
  pair. The allocation in the node table of the submesh is not part of the state.
\<close>

definition register_node ::
  "int \<Rightarrow> UniqueIndexGenerator \<times> ParNCSubMesh \<Rightarrow> error + UniqueIndexGenerator \<times> ParNCSubMesh" where
  "register_node n s =
     (let ((new_node_id, new_node), g) = Get (fst s) n in
      if \<not> new_node then Inl NodeAlreadyKnown
      else Inr (g, (snd s)\<lparr>parent_node_ids := parent_node_ids (snd s) @ [n],
                           parent_to_submesh_node_ids :=
                             (parent_to_submesh_node_ids (snd s))(n \<mapsto> new_node_id)\<rparr>))"

text \<open>
  The body of the loop over the submesh vertices (lines 101 to 109): the node of the parent
  vertex is looked up in the registry and must be known.
\<close>

definition bind_vertex ::
  "ParNCMesh \<Rightarrow> int \<Rightarrow> UniqueIndexGenerator \<times> ParNCSubMesh \<Rightarrow>
   error + UniqueIndexGenerator \<times> ParNCSubMesh" where
  "bind_vertex P parent_vertex_id s =
     (if \<not> (0 \<le> parent_vertex_id \<and> nat parent_vertex_id < length (vertex_nodeId P))
      then Inl OutOfRange
      else
        let ((new_node_id, new_node), g) = Get (fst s) (vertex_nodeId P ! nat parent_vertex_id) in
        if new_node then Inl VertexNodeMissing else Inr (g, snd s))"

text \<open>
  Lines 119 to 125 for the vertex slot \<open>n\<close> of a leaf: the node reference is translated
  through the registry, and the assertion asks for a known id.
\<close>

definition relabel_vertex ::
  "nat \<Rightarrow> UniqueIndexGenerator \<times> Element \<Rightarrow> error + UniqueIndexGenerator \<times> Element" where
  "relabel_vertex n s =
     (let el = snd s in
      if \<not> n < length (node el) then Inl OutOfRange
      else
        let ((new_node_id, new_id), g) = Get (fst s) (node el ! n) in
        if new_id then Inl ShouldNotBeNew
        else Inr (g, el\<lparr>node := (node el)[n := new_node_id]\<rparr>))"

text \<open>
  Lines 126 to 140 for one edge of a leaf: the edge node is looked up in the parent from the
  parent ids of its two ends and registered on first encounter.
\<close>

definition reference_edge ::
  "ParNCMesh \<Rightarrow> Element \<Rightarrow> nat \<times> nat \<Rightarrow> UniqueIndexGenerator \<times> ParNCSubMesh \<Rightarrow>
   error + UniqueIndexGenerator \<times> ParNCSubMesh" where
  "reference_edge P el e s =
     (let m = snd s in
      if \<not> (fst e < length (node el) \<and> snd e < length (node el)) then Inl OutOfRange
      else
        let a = node el ! fst e; b = node el ! snd e in
        if \<not> (0 \<le> a \<and> nat a < length (parent_node_ids m) \<and>
               0 \<le> b \<and> nat b < length (parent_node_ids m)) then Inl OutOfRange
        else
          let pid = nodes_FindId P (parent_node_ids m ! nat a) (parent_node_ids m ! nat b) in
          if pid < 0 then Inl EdgeNotFound
          else
            let ((submesh_node_id, new_id), g) = Get (fst s) pid in
            Inr (g, if new_id
                    then m\<lparr>parent_node_ids := parent_node_ids m @ [pid],
                           parent_to_submesh_node_ids :=
                             (parent_to_submesh_node_ids m)(pid \<mapsto> submesh_node_id)\<rparr>
                    else m))"

text \<open>
  Line 161 for the child slot \<open>i\<close> of an internal element. The map is a
  \<^verbatim>\<open>std::unordered_map\<close> read with \<^verbatim>\<open>operator[]\<close>, which enters the value 0 for a key
  that it does not hold.
\<close>

definition remap_child :: "nat \<Rightarrow> Element \<times> (int \<rightharpoonup> int) \<Rightarrow> error + Element \<times> (int \<rightharpoonup> int)" where
  "remap_child i s =
     (let el = fst s; mp = snd s in
      if \<not> i < length (child el) then Inl OutOfRange
      else
        (case mp (child el ! i) of
           None \<Rightarrow> Inr (el\<lparr>child := (child el)[i := 0]\<rparr>, mp(child el ! i \<mapsto> 0))
         | Some v \<Rightarrow> Inr (el\<lparr>child := (child el)[i := v]\<rparr>, mp)))"

text \<open>Line 164: the parent reference is read with \<^verbatim>\<open>at\<close>, which throws for a missing key.\<close>

definition remap_parent :: "Element \<Rightarrow> (int \<rightharpoonup> int) \<Rightarrow> error + Element" where
  "remap_parent el mp =
     (if parent el < 0 then Inr el
      else (case mp (parent el) of None \<Rightarrow> Inl KeyMissing | Some v \<Rightarrow> Inr (el\<lparr>parent := v\<rparr>)))"

text \<open>
  The body of the second walk over the elements (lines 112 to 165) for the element at
  position \<open>i\<close>. The loop over the faces of a leaf (lines 141 to 154) reads the element
  and the parent's face table and writes the face table of the submesh only; that table is
  not part of the state.
\<close>

definition relabel_element ::
  "ParNCMesh \<Rightarrow> nat \<Rightarrow> UniqueIndexGenerator \<times> ParNCSubMesh \<Rightarrow>
   error + UniqueIndexGenerator \<times> ParNCSubMesh" where
  "relabel_element P i s =
     (let m = snd s; el = elements m ! i in
      case
        (if IsLeaf el then
           (case foldE relabel_vertex [0..<nv (GI P (geom el))] (fst s, el) of
              Inl e \<Rightarrow> Inl e
            | Inr (g1, el1) \<Rightarrow>
                (case foldE (reference_edge P el1) (edges (GI P (geom el))) (g1, m) of
                   Inl e \<Rightarrow> Inl e
                 | Inr (g2, m2) \<Rightarrow> Inr (g2, m2, el1)))
         else
           (case foldE remap_child [0..<ref_type_num_children P (ref_type el)]
                   (el, parent_to_submesh_element_ids m) of
              Inl e \<Rightarrow> Inl e
            | Inr (el1, mp) \<Rightarrow> Inr (fst s, m\<lparr>parent_to_submesh_element_ids := mp\<rparr>, el1)))
      of
        Inl e \<Rightarrow> Inl e
      | Inr (g2, m2, el1) \<Rightarrow>
          (case remap_parent el1 (parent_to_submesh_element_ids m2) of
             Inl e \<Rightarrow> Inl e
           | Inr el2 \<Rightarrow> Inr (g2, m2\<lparr>elements := (elements m2)[i := el2]\<rparr>)))"

text \<open>
  The domain branch of the constructor up to line 166: the first walk, the registration of
  the collected nodes in the fresh registry \<^verbatim>\<open>node_ids\<close>, the loop over the submesh
  vertices and the second walk.
\<close>

definition domain_pass ::
  "ParNCMesh \<Rightarrow> ParSubMesh \<Rightarrow> int list \<Rightarrow> ParNCSubMesh \<Rightarrow>
   error + UniqueIndexGenerator \<times> ParNCSubMesh" where
  "domain_pass P S attributes m0 =
     (case foldE (collect_parent_element P S attributes) [0..<length (parent_elements P)] (m0, [])
      of Inl e \<Rightarrow> Inl e
       | Inr (m1, new_nodes) \<Rightarrow>
     (case foldE register_node new_nodes (empty_generator, m1)
      of Inl e \<Rightarrow> Inl e
       | Inr s2 \<Rightarrow>
     (case foldE (bind_vertex P) (GetParentVertexIDMap S) s2
      of Inl e \<Rightarrow> Inl e
       | Inr s3 \<Rightarrow> foldE (relabel_element P) [0..<length (elements (snd s3))] s3)))"

subsection \<open>The boundary pass: discovery of the face tree\<close>

text \<open>
  The map \<^verbatim>\<open>pnodes_new_elem\<close> is a \<^verbatim>\<open>std::map<FaceNodes, int>\<close> whose order
  compares the sorted nodes: two tuples with the same sorted nodes are the same key, and the
  map keeps the tuple with which the key was entered. It is modelled as a list of entries,
  each the sorted nodes, the tuple as entered and the element.
\<close>

type_synonym face_map = "(int list \<times> FaceNodes \<times> nat) list"

definition face_key :: "FaceNodes \<Rightarrow> int list" where
  "face_key fn = sort (nodes fn)"

definition find_face :: "face_map \<Rightarrow> FaceNodes \<Rightarrow> (FaceNodes \<times> nat) option" where
  "find_face M fn = map_of M (face_key fn)"

text \<open>\<^verbatim>\<open>emplace\<close> enters the pair unless the key is present.\<close>

definition emplace_face :: "face_map \<Rightarrow> FaceNodes \<Rightarrow> nat \<Rightarrow> face_map" where
  "emplace_face M fn e =
     (if map_of M (face_key fn) = None then M @ [(face_key fn, fn, e)] else M)"

text \<open>
  \<^verbatim>\<open>pnodes_new_elem[fn] = e\<close>: the key is entered if it is absent, and the element is
  assigned to it.
\<close>

definition assign_face :: "face_map \<Rightarrow> FaceNodes \<Rightarrow> nat \<Rightarrow> face_map" where
  "assign_face M fn e =
     (if map_of M (face_key fn) = None then M @ [(face_key fn, fn, e)]
      else map (\<lambda>x. if fst x = face_key fn then (fst x, fst (snd x), e) else x) M)"

definition erase_face :: "face_map \<Rightarrow> FaceNodes \<Rightarrow> face_map" where
  "erase_face M fn = filter (\<lambda>x. fst x \<noteq> face_key fn) M"

text \<open>The state of the discovery loop: the object and the two local containers.\<close>

record Discovery =
  mesh :: ParNCSubMesh
  pnodes_new_elem :: face_map
  new_nodes :: "int list"

text \<open>
  Modelled from the spec: the refinement tags \<^verbatim>\<open>Refinement::X\<close> and
  \<^verbatim>\<open>Refinement::XY\<close> are declared outside the sources. The specification has the
  parent marked as non-leaf by a split refinement tag; the tags are the bit masks of the
  split directions and are not zero.
\<close>

definition Refinement_X :: int where
  "Refinement_X = 1"

definition Refinement_XY :: int where
  "Refinement_XY = 3"

text \<open>
  Lines 334 to 338: the parent is marked as refined, the child is entered in the slot
  \<open>slot\<close> of the parent, and the parent is entered in the child.
\<close>

definition wire :: "int \<Rightarrow> nat \<Rightarrow> int \<Rightarrow> nat \<Rightarrow> Discovery \<Rightarrow> error + Discovery" where
  "wire Dim pelem slot new_elem_id d =
     (let els = elements (mesh d) in
      if \<not> (pelem < length els \<and> new_elem_id < length els) then Inl OutOfRange
      else if \<not> (0 \<le> slot \<and> nat slot < length (child (els ! pelem))) then Inl OutOfRange
      else
        let els1 = els[pelem := (els ! pelem)
                     \<lparr>ref_type := (if Dim = 2 then Refinement_XY else Refinement_X)\<rparr>];
            els2 = els1[pelem := (els1 ! pelem)
                     \<lparr>child := (child (els1 ! pelem))[nat slot := int new_elem_id]\<rparr>];
            els3 = els2[new_elem_id := (els2 ! new_elem_id)\<lparr>parent := int pelem\<rparr>]
        in Inr (d\<lparr>mesh := (mesh d)\<lparr>elements := els3\<rparr>\<rparr>))"

text \<open>
  The first position at which a value occurs in a tuple: the inner loop of lines 322 to 326
  runs to the first match and breaks.
\<close>

fun first_match :: "int \<Rightarrow> int list \<Rightarrow> nat option" where
  "first_match v [] = None"
| "first_match v (x # xs) = (if v = x then Some 0 else map_option Suc (first_match v xs))"

text \<open>
  Lines 320 to 327: \<open>fn\<close> is the tuple in the new order, \<open>key\<close> the tuple as stored
  in the map. For each position \<open>i1\<close> of the new tuple the first position \<open>i2\<close> of
  the old tuple with the same node is looked up, and the local array takes at \<open>i2\<close> the
  child that the parent holds at \<open>i1\<close>. The local array has no initial values; all its
  entries are copied over the first child slots of the parent.
\<close>

definition permute_children :: "FaceNodes \<Rightarrow> FaceNodes \<Rightarrow> int list \<Rightarrow> error + int list" where
  "permute_children fn key ch =
     (if length ch < MaxFaceNodes then Inl OutOfRange
      else
        let tmp = fold (\<lambda>i1 tmp.
                     case first_match (nodes fn ! i1) (nodes key) of
                       None \<Rightarrow> tmp
                     | Some i2 \<Rightarrow> tmp[i2 := Some (ch ! i1)])
                   [0..<MaxFaceNodes] (replicate MaxFaceNodes None)
        in if None \<in> set tmp then Inl UninitializedRead
           else Inr (map the tmp @ drop MaxFaceNodes ch))"

text \<open>
  Lines 302 to 331: the parent found under \<open>key\<close> is brought to the node order
  \<open>fn\<close>. A leaf has all its nodes reset; an element with children has its child slots
  permuted; the map entry is erased and entered again with the new tuple.
\<close>

definition fix_parent_order :: "FaceNodes \<Rightarrow> FaceNodes \<Rightarrow> nat \<Rightarrow> Discovery \<Rightarrow> error + Discovery" where
  "fix_parent_order fn key pelem_id d =
     (let els = elements (mesh d) in
      if \<not> pelem_id < length els then Inl OutOfRange
      else
        let parent_elem = els ! pelem_id in
        case (if IsLeaf parent_elem
              then Inr (parent_elem\<lparr>node := replicate (length (node parent_elem)) (-1)\<rparr>)
              else (case permute_children fn key (child parent_elem) of
                      Inl e \<Rightarrow> Inl e
                    | Inr ch \<Rightarrow> Inr (parent_elem\<lparr>child := ch\<rparr>)))
        of
          Inl e \<Rightarrow> Inl e
        | Inr parent_elem' \<Rightarrow>
            Inr (d\<lparr>mesh := (mesh d)\<lparr>elements := els[pelem_id := parent_elem']\<rparr>,
                   pnodes_new_elem :=
                     emplace_face (erase_face (pnodes_new_elem d) key) fn pelem_id\<rparr>))"

text \<open>
  Lines 281 to 288: a parent that is not in the map is added as a new element, entered in the
  map, and the id that the parent's face table has for its nodes is appended to the parent ids.
\<close>

definition add_parent :: "ParNCMesh \<Rightarrow> int \<Rightarrow> FaceNodes \<Rightarrow> Discovery \<Rightarrow> nat \<times> Discovery" where
  "add_parent P attr fn d =
     (let (pelem_id, m1) = AddElement (new_Element P (face_geom_from_nodes fn) attr) (mesh d);
          parent_face_id = faces_FindId P (nodes fn ! 0) (nodes fn ! 1) (nodes fn ! 2) (nodes fn ! 3)
      in (pelem_id,
          d\<lparr>mesh := m1\<lparr>parent_element_ids := parent_element_ids m1 @ [parent_face_id]\<rparr>,
            pnodes_new_elem := emplace_face (pnodes_new_elem d) fn pelem_id\<rparr>))"

text \<open>
  The loop \<^verbatim>\<open>while (true)\<close> of lines 269 to 344, with the loop variables
  \<^verbatim>\<open>fn\<close> and \<^verbatim>\<open>new_elem_id\<close>. \<open>attr\<close> is the attribute of the face that started
  the ascent, \<open>eg\<close> the geometry of the parent element next to it and
  \<open>face_type\<close> its classification. The source gives no bound on the ascent; a run that
  never leaves the loop is the value \<open>None\<close>.
\<close>

partial_function (option) ascend ::
  "ParNCMesh \<Rightarrow> int \<Rightarrow> int \<Rightarrow> Geometry \<Rightarrow> MeshIdType \<Rightarrow> FaceNodes \<Rightarrow> nat \<Rightarrow> Discovery \<Rightarrow>
   (error + Discovery) option" where
  "ascend P Dim attr eg face_type fn new_elem_id d =
     (let slot = fst (ParentFaceNodes P fn); fn' = snd (ParentFaceNodes P fn) in
      if slot = -1 then
        (if new_elem_id < length (elements (mesh d))
         then Some (Inr (d\<lparr>mesh := (mesh d)\<lparr>elements :=
                 (elements (mesh d))[new_elem_id :=
                    (elements (mesh d) ! new_elem_id)\<lparr>parent := -1\<rparr>]\<rparr>\<rparr>))
         else Some (Inl OutOfRange))
      else
        (case find_face (pnodes_new_elem d) fn' of
           None \<Rightarrow>
             (case wire Dim (fst (add_parent P attr fn' d)) slot new_elem_id
                     (snd (add_parent P attr fn' d)) of
                Inl e \<Rightarrow> Some (Inl e)
              | Inr d2 \<Rightarrow>
                  ascend P Dim attr eg face_type fn' (fst (add_parent P attr fn' d)) d2)
         | Some found \<Rightarrow>
             if ((eg = TRIANGLE \<and> slot \<noteq> 3) \<or> face_type \<noteq> UNRECOGNIZED) \<and>
                nodes fn' \<noteq> nodes (fst found)
             then
               (case fix_parent_order fn' (fst found) (snd found) d of
                  Inl e \<Rightarrow> Some (Inl e)
                | Inr d1 \<Rightarrow>
                    (case wire Dim (snd found) slot new_elem_id d1 of
                       Inl e \<Rightarrow> Some (Inl e)
                     | Inr d2 \<Rightarrow> ascend P Dim attr eg face_type fn' (snd found) d2))
             else
               (case wire Dim (snd found) slot new_elem_id d of
                  Inl e \<Rightarrow> Some (Inl e)
                | Inr d2 \<Rightarrow> Some (Inr d2))))"

declare ascend.simps [code]

text \<open>The rank of a new face element (lines 225 to 236).\<close>

definition face_rank :: "ParNCMesh \<Rightarrow> Face \<Rightarrow> error + int" where
  "face_rank P face =
     (if (0 \<le> face_elem0 face \<and> \<not> nat (face_elem0 face) < length (parent_elements P)) \<or>
         (0 \<le> face_elem1 face \<and> \<not> nat (face_elem1 face) < length (parent_elements P))
      then Inl OutOfRange
      else
        let rank0 = (if 0 \<le> face_elem0 face then rank (parent_elements P ! nat (face_elem0 face)) else -1);
            rank1 = (if 0 \<le> face_elem1 face then rank (parent_elements P ! nat (face_elem1 face)) else -1)
        in if rank0 < 0 then Inr rank1
           else if rank1 < 0 then Inr rank0
           else Inr (if rank0 < rank1 then rank0 else rank1))"

text \<open>
  Lines 221 to 256: the element for a matching face is added, given its rank, entered in the
  maps, given the nodes of the face, and the nodes and edge nodes are collected.
\<close>

definition add_face_element ::
  "ParNCMesh \<Rightarrow> nat \<Rightarrow> Face \<Rightarrow> FaceNodes \<Rightarrow> Discovery \<Rightarrow> error + nat \<times> Discovery" where
  "add_face_element P i face fn d =
     (let face_geom = face_geom_from_nodes fn;
          (new_elem_id, m1) = AddElement (new_Element P face_geom (face_attribute face)) (mesh d);
          el = elements m1 ! new_elem_id
      in case face_rank P face of
           Inl e \<Rightarrow> Inl e
         | Inr r \<Rightarrow>
             if length (node el) < MaxFaceNodes then Inl OutOfRange
             else if \<not> list_all (\<lambda>e. fst e < MaxFaceNodes \<and> snd e < MaxFaceNodes) (edges (GI P face_geom))
             then Inl OutOfRange
             else
               Inr (new_elem_id,
                    d\<lparr>mesh := m1\<lparr>elements := (elements m1)[new_elem_id :=
                                    el\<lparr>rank := r, node := nodes fn @ drop MaxFaceNodes (node el)\<rparr>],
                                  parent_element_ids := parent_element_ids m1 @ [int i],
                                  parent_to_submesh_element_ids :=
                                    (parent_to_submesh_element_ids m1)(int i \<mapsto> int new_elem_id)\<rparr>,
                      pnodes_new_elem := assign_face (pnodes_new_elem d) fn new_elem_id,
                      new_nodes :=
                        fold (\<lambda>e ns. set_insert (nodes_FindId P (nodes fn ! fst e) (nodes fn ! snd e)) ns)
                          (edges (GI P face_geom))
                          (fold (\<lambda>x ns. if x \<noteq> -1 then set_insert x ns else ns) (nodes fn)
                             (new_nodes d))\<rparr>))"

text \<open>
  The body of the loop over the slots of the parent's face table (lines 201 to 345) for the
  slot \<open>i\<close>.
\<close>

definition discover_face ::
  "ParNCMesh \<Rightarrow> int \<Rightarrow> int list \<Rightarrow> nat \<Rightarrow> Discovery \<Rightarrow> (error + Discovery) option" where
  "discover_face P Dim attributes i d =
     (let face = parent_faces P ! i in
      if face_unused face then Some (Inr d)
      else
        let e = (if 0 \<le> face_elem0 face then face_elem0 face else face_elem1 face) in
        if \<not> (0 \<le> e \<and> nat e < length (parent_elements P)) then Some (Inl OutOfRange)
        else if \<not> HasAttribute (face_attribute face) attributes \<or>
                GetMeshIdType P (face_index face) = MASTER then Some (Inr d)
        else if find_face (pnodes_new_elem d) (FindFaceNodes P face) \<noteq> None then Some (Inr d)
        else if \<not> (face_elem0 face < 0 \<or> face_elem1 face < 0) then Some (Inl InternalNCBoundary)
        else
          (case add_face_element P i face (FindFaceNodes P face) d of
             Inl err \<Rightarrow> Some (Inl err)
           | Inr added \<Rightarrow>
               ascend P Dim (face_attribute face) (geom (parent_elements P ! nat e))
                 (GetMeshIdType P (face_index face)) (FindFaceNodes P face) (fst added) (snd added)))"

fun discover_all ::
  "ParNCMesh \<Rightarrow> int \<Rightarrow> int list \<Rightarrow> nat list \<Rightarrow> Discovery \<Rightarrow> (error + Discovery) option" where
  "discover_all P Dim attributes [] d = Some (Inr d)"
| "discover_all P Dim attributes (i # is) d =
     (case discover_face P Dim attributes i d of
        None \<Rightarrow> None
      | Some (Inl e) \<Rightarrow> Some (Inl e)
      | Some (Inr d') \<Rightarrow> discover_all P Dim attributes is d')"

text \<open>The discovery loop from the fresh object and the empty local containers.\<close>

definition discovery ::
  "ParNCMesh \<Rightarrow> ParSubMesh \<Rightarrow> int list \<Rightarrow> ParNCSubMesh \<Rightarrow> (error + Discovery) option" where
  "discovery P S attributes m0 =
     discover_all P (Dimension S) attributes [0..<length (parent_faces P)]
       \<lparr>mesh = m0, pnodes_new_elem = [], new_nodes = []\<rparr>"

subsection \<open>The reordering pass of the boundary extraction\<close>

text \<open>\<^verbatim>\<open>std::lexicographical_compare\<close> on two ranges of \<^verbatim>\<open>int\<close>.\<close>

fun lexicographical_compare :: "int list \<Rightarrow> int list \<Rightarrow> bool" where
  "lexicographical_compare [] [] = False"
| "lexicographical_compare [] (y # ys) = True"
| "lexicographical_compare (x # xs) [] = False"
| "lexicographical_compare (x # xs) (y # ys) =
     (if x < y then True else if y < x then False else lexicographical_compare xs ys)"

text \<open>
  The comparator \<^verbatim>\<open>comp_elements\<close> (lines 378 to 392). The side table
  \<^verbatim>\<open>new_elem_to_parent_face_nodes\<close> is read with \<^verbatim>\<open>at\<close>; the loop below reports a
  table that has not one entry per element before any comparison is made.
\<close>

definition comp_elements :: "Element list \<Rightarrow> FaceNodes list \<Rightarrow> nat \<Rightarrow> nat \<Rightarrow> bool" where
  "comp_elements els fns l r =
     (if parent (els ! l) = parent (els ! r)
      then lexicographical_compare (nodes (fns ! l)) (nodes (fns ! r))
      else parent (els ! l) < parent (els ! r))"

text \<open>
  \<^verbatim>\<open>std::is_sorted\<close> with a comparator: no element is less than its predecessor.
\<close>

fun is_sorted :: "('a \<Rightarrow> 'a \<Rightarrow> bool) \<Rightarrow> 'a list \<Rightarrow> bool" where
  "is_sorted lt [] = True"
| "is_sorted lt [x] = True"
| "is_sorted lt (x # y # zs) = (\<not> lt y x \<and> is_sorted lt (y # zs))"

text \<open>
  \<^verbatim>\<open>std::stable_sort\<close> with a comparator, as a stable insertion sort: an element is
  placed behind the elements that are less than it and in front of the first one that is
  not, so that equivalent elements keep their order.
\<close>

fun insert_stable :: "('a \<Rightarrow> 'a \<Rightarrow> bool) \<Rightarrow> 'a \<Rightarrow> 'a list \<Rightarrow> 'a list" where
  "insert_stable lt x [] = [x]"
| "insert_stable lt x (y # ys) = (if lt y x then y # insert_stable lt x ys else x # y # ys)"

definition stable_sort :: "('a \<Rightarrow> 'a \<Rightarrow> bool) \<Rightarrow> 'a list \<Rightarrow> 'a list" where
  "stable_sort lt xs = foldr (insert_stable lt) xs []"

text \<open>The lambda \<^verbatim>\<open>parental_sorted\<close> (lines 394 to 400).\<close>

definition parental_sorted :: "Element list \<Rightarrow> FaceNodes list \<Rightarrow> bool" where
  "parental_sorted els fns = is_sorted (comp_elements els fns) [0..<length els]"

text \<open>
  Modelled from the spec: \<^verbatim>\<open>Permute\<close> is defined in \<^verbatim>\<open>submesh_utils.hpp\<close>, which
  is not among the sources. The specification has the permutation that the sort produced
  applied to the element array, to the parent ids and to the side table; the permutation
  is \<^verbatim>\<open>new_to_old\<close>, so the entry at a new position is the entry at the old position
  recorded there.
\<close>

definition Permute :: "nat list \<Rightarrow> 'a list \<Rightarrow> 'a list" where
  "Permute indices t = map (\<lambda>i. t ! i) indices"

text \<open>
  The loop of lines 449 to 452 that builds \<^verbatim>\<open>old_to_new\<close>. The array is allocated
  without initial values and the loop writes every entry of it.
\<close>

definition invert :: "nat list \<Rightarrow> nat list" where
  "invert new_to_old =
     fold (\<lambda>i old_to_new. old_to_new[new_to_old ! i := i]) [0..<length new_to_old]
       (replicate (length new_to_old) 0)"

text \<open>
  Lines 457 to 462: the map from parent ids to submesh ids is cleared and filled again;
  an element whose parent id is \<open>-1\<close> is skipped.
\<close>

definition rebuild_map :: "int list \<Rightarrow> (int \<rightharpoonup> int)" where
  "rebuild_map pids =
     fold (\<lambda>i m. if pids ! i = -1 then m else m(pids ! i \<mapsto> int i)) [0..<length pids] Map.empty"

text \<open>
  Lines 470 to 475 for the element at position \<open>i\<close>: the child slots are walked from
  slot 0 up to the first negative entry; each is sent through \<^verbatim>\<open>old_to_new\<close> and the
  rank of the element takes the minimum with the rank that the child has in the array at
  that moment. The element is updated in place, as in the source.
\<close>

fun child_loop :: "nat list \<Rightarrow> nat \<Rightarrow> nat list \<Rightarrow> Element list \<Rightarrow> error + Element list" where
  "child_loop old_to_new i [] els = Inr els"
| "child_loop old_to_new i (c # cs) els =
     (let ch = child (els ! i) ! c in
      if ch < 0 then Inr els
      else if \<not> nat ch < length old_to_new then Inl OutOfRange
      else
        let ch' = old_to_new ! nat ch;
            els1 = els[i := (els ! i)\<lparr>child := (child (els ! i))[c := int ch']\<rparr>]
        in if \<not> ch' < length els1 then Inl OutOfRange
           else child_loop old_to_new i cs
                  (els1[i := (els1 ! i)\<lparr>rank := min (rank (els1 ! i)) (rank (els1 ! ch'))\<rparr>]))"

text \<open>Line 477: the parent reference is sent through \<^verbatim>\<open>old_to_new\<close>.\<close>

definition relink_parent :: "nat list \<Rightarrow> nat \<Rightarrow> Element list \<Rightarrow> error + Element list" where
  "relink_parent old_to_new i els =
     (let p = parent (els ! i) in
      if p = -1 then Inr els
      else if 0 \<le> p \<and> nat p < length old_to_new
      then Inr (els[i := (els ! i)\<lparr>parent := int (old_to_new ! nat p)\<rparr>])
      else Inl OutOfRange)"

text \<open>The body of the loop of lines 465 to 478 for one element.\<close>

definition relink_element :: "nat list \<Rightarrow> nat \<Rightarrow> Element list \<Rightarrow> error + Element list" where
  "relink_element old_to_new i els =
     (if IsLeaf (els ! i) then relink_parent old_to_new i els
      else
        (case child_loop old_to_new i [0..<length (child (els ! i))]
                (els[i := (els ! i)\<lparr>rank := INT_MAX\<rparr>]) of
           Inl e \<Rightarrow> Inl e
         | Inr els1 \<Rightarrow> relink_parent old_to_new i els1))"

fun relink_all :: "nat list \<Rightarrow> nat list \<Rightarrow> Element list \<Rightarrow> error + Element list" where
  "relink_all old_to_new [] els = Inr els"
| "relink_all old_to_new (i # is) els =
     (case relink_element old_to_new i els of
        Inl e \<Rightarrow> Inl e
      | Inr els1 \<Rightarrow> relink_all old_to_new is els1)"

text \<open>
  The body of the \<^verbatim>\<open>while\<close> loop (lines 441 to 478). The state is the object together
  with the local side table \<^verbatim>\<open>new_elem_to_parent_face_nodes\<close>.
\<close>

definition reorder_pass ::
  "ParNCSubMesh \<times> FaceNodes list \<Rightarrow> error + ParNCSubMesh \<times> FaceNodes list" where
  "reorder_pass s =
     (let m = fst s; fns = snd s;
          new_to_old = stable_sort (comp_elements (elements m) fns) [0..<length (elements m)];
          old_to_new = invert new_to_old;
          pids = Permute new_to_old (parent_element_ids m)
      in case relink_all old_to_new [0..<length (elements m)]
                (Permute new_to_old (elements m)) of
           Inl e \<Rightarrow> Inl e
         | Inr els \<Rightarrow>
             Inr (m\<lparr>elements := els, parent_element_ids := pids,
                     parent_to_submesh_element_ids := rebuild_map pids\<rparr>,
                  Permute new_to_old fns))"

text \<open>
  The comparator and \<^verbatim>\<open>Permute\<close> index the parent ids and the side table by element
  position: both must have one entry per element.
\<close>

definition tables_fit :: "ParNCSubMesh \<times> FaceNodes list \<Rightarrow> bool" where
  "tables_fit s =
     (length (parent_element_ids (fst s)) = length (elements (fst s)) \<and>
      length (snd s) = length (elements (fst s)))"

text \<open>
  The loop \<^verbatim>\<open>while (!parental_sorted(elements))\<close> (lines 440 to 479). The source
  gives no bound on the number of passes; a run that never leaves the loop is the value
  \<open>None\<close>.
\<close>

partial_function (option) reorder_loop ::
  "ParNCSubMesh \<times> FaceNodes list \<Rightarrow> (error + ParNCSubMesh \<times> FaceNodes list) option" where
  "reorder_loop s =
     (if \<not> tables_fit s then Some (Inl OutOfRange)
      else if parental_sorted (elements (fst s)) (snd s) then Some (Inr s)
      else (case reorder_pass s of
              Inl e \<Rightarrow> Some (Inl e)
            | Inr s' \<Rightarrow> reorder_loop s'))"

declare reorder_loop.simps [code]



definition parents_from_minus_one :: "Element list \<Rightarrow> bool" where
  "parents_from_minus_one els = (\<forall>e \<in> set els. -1 \<le> parent e)"

text \<open>The ranks of the children of an element: the slots up to the first negative entry.\<close>

definition children_ranks :: "Element list \<Rightarrow> Element \<Rightarrow> int list" where
  "children_ranks els e = map (\<lambda>c. rank (els ! nat c)) (takeWhile (\<lambda>c. 0 \<le> c) (child e))"

subsection \<open>The boundary pass up to the end of the reordering\<close>

text \<open>
  Lines 201 to 479: the discovery loop, the assertion of line 348, the side table of line 349
  (one value-initialized tuple per entry of \<^verbatim>\<open>pnodes_new_elem\<close>; no later statement
  writes to it), the registration of the collected nodes in the fresh registry, and the
  reordering loop.
\<close>

definition boundary_pass ::
  "ParNCMesh \<Rightarrow> ParSubMesh \<Rightarrow> int list \<Rightarrow> ParNCSubMesh \<Rightarrow>
   (error + UniqueIndexGenerator \<times> ParNCSubMesh \<times> FaceNodes list) option" where
  "boundary_pass P S attributes m0 =
     (case discovery P S attributes m0 of
        None \<Rightarrow> None
      | Some (Inl e) \<Rightarrow> Some (Inl e)
      | Some (Inr d) \<Rightarrow>
          if length (parent_element_ids (mesh d)) \<noteq> length (elements (mesh d))
          then Some (Inl SizeMismatch)
          else
            (case foldE register_node (new_nodes d) (empty_generator, mesh d) of
               Inl e \<Rightarrow> Some (Inl e)
             | Inr gm \<Rightarrow>
                 map_option (map_sum id (\<lambda>s. (fst gm, s)))
                   (reorder_loop (snd gm,
                      replicate (length (pnodes_new_elem d)) (FaceNodes 0 0 0 0)))))"


definition vertices_in :: "ParNCMesh \<Rightarrow> Element list \<Rightarrow> int set \<Rightarrow> bool" where
  "vertices_in P els K =
     (\<forall>el \<in> set els. IsLeaf el \<longrightarrow> (\<forall>n < nv (GI P (geom el)). node el ! n \<in> K))"




subsection \<open>Concrete states\<close>

text \<open>
  A boundary edge refined twice, as the discovery loop leaves it: the coarse edge with nodes
  0 and 1 has the children (0, 2) and (2, 1); the second child has the children (2, 3) and
  (3, 1). The three leaves are matching faces of the parent mesh (slots 1, 3 and 4 of its
  face table); the two internal elements were synthesized during the ascent, their faces are
  not in the parent's face table (\<^verbatim>\<open>FindId\<close> gave \<open>-1\<close>) and their rank is the one
  the element constructor gave them. The leaf (0, 2) was discovered first, so the elements
  were created in the order: leaf (0, 2), coarse edge, leaf (2, 3), edge (2, 1), leaf (3, 1).
\<close>

definition leaf_face :: "FaceNodes \<Rightarrow> int \<Rightarrow> int \<Rightarrow> Element" where
  "leaf_face fn r p =
     \<lparr>geom = SEGMENT, ref_type = 0, index = -1, rank = r, attribute = 1,
      node = nodes fn @ [-1, -1, -1, -1], child = replicate 10 (-1), parent = p\<rparr>"

definition coarse_face :: "int list \<Rightarrow> int \<Rightarrow> int \<Rightarrow> Element" where
  "coarse_face cs r p =
     \<lparr>geom = SEGMENT, ref_type = 1, index = -1, rank = r, attribute = 1,
      node = replicate 8 (-1), child = cs @ replicate 8 (-1), parent = p\<rparr>"

definition twice_refined_elements :: "int \<Rightarrow> int \<Rightarrow> int \<Rightarrow> Element list" where
  "twice_refined_elements r0 r1 r2 =
     [leaf_face (FaceNodes 0 0 2 2) r1 1,
      coarse_face [0, 3] r0 (-1),
      leaf_face (FaceNodes 2 2 3 3) r2 3,
      coarse_face [2, 4] r0 1,
      leaf_face (FaceNodes 3 3 1 1) r2 3]"

definition twice_refined :: "int \<Rightarrow> int \<Rightarrow> int \<Rightarrow> int \<Rightarrow> ParNCSubMesh \<times> FaceNodes list" where
  "twice_refined me r0 r1 r2 =
     (\<lparr>MyRank = me, NRanks = 3,
       elements = twice_refined_elements r0 r1 r2,
       parent_element_ids = [1, -1, 3, -1, 4],
       parent_to_submesh_element_ids = [1 \<mapsto> 0, 3 \<mapsto> 2, 4 \<mapsto> 4],
       parent_node_ids = [0, 1, 2, 3, 20, 22, 23],
       parent_to_submesh_node_ids =
         [0 \<mapsto> 0, 1 \<mapsto> 1, 2 \<mapsto> 2, 3 \<mapsto> 3, 20 \<mapsto> 4, 22 \<mapsto> 5, 23 \<mapsto> 6]\<rparr>,
      replicate 5 (FaceNodes 0 0 0 0))"

text \<open>
  The same boundary edge after one reordering pass: the root first, then its two children,
  then the two grandchildren.
\<close>

definition twice_refined_sorted :: "int \<Rightarrow> int \<Rightarrow> int \<Rightarrow> int \<Rightarrow> ParNCSubMesh \<times> FaceNodes list" where
  "twice_refined_sorted me r0 r1 r2 =
     (\<lparr>MyRank = me, NRanks = 3,
       elements =
         [coarse_face [1, 2] (min (min INT_MAX r1) r0) (-1),
          leaf_face (FaceNodes 0 0 2 2) r1 0,
          coarse_face [3, 4] (min (min INT_MAX r2) r2) 0,
          leaf_face (FaceNodes 2 2 3 3) r2 2,
          leaf_face (FaceNodes 3 3 1 1) r2 2],
       parent_element_ids = [-1, 1, -1, 3, 4],
       parent_to_submesh_element_ids = rebuild_map [-1, 1, -1, 3, 4],
       parent_node_ids = [0, 1, 2, 3, 20, 22, 23],
       parent_to_submesh_node_ids =
         [0 \<mapsto> 0, 1 \<mapsto> 1, 2 \<mapsto> 2, 3 \<mapsto> 3, 20 \<mapsto> 4, 22 \<mapsto> 5, 23 \<mapsto> 6]\<rparr>,
      replicate 5 (FaceNodes 0 0 0 0))"

text \<open>
  What is observed of a state: per element its tag, rank, parent and the ranks of its
  children, and the parent ids.
\<close>

definition view ::
  "ParNCSubMesh \<times> FaceNodes list \<Rightarrow> (int \<times> int \<times> int \<times> int list) list \<times> int list" where
  "view s =
     (map (\<lambda>e. (ref_type e, rank e, parent e, children_ranks (elements (fst s)) e))
        (elements (fst s)),
      parent_element_ids (fst s))"

text \<open>A state that is already in order: a root and its two children.\<close>

definition once_refined :: "ParNCSubMesh \<times> FaceNodes list" where
  "once_refined =
     (\<lparr>MyRank = 0, NRanks = 1,
       elements = [coarse_face [1, 2] 0 (-1),
                   leaf_face (FaceNodes 0 0 2 2) 0 0,
                   leaf_face (FaceNodes 2 2 1 1) 0 0],
       parent_element_ids = [-1, 1, 3],
       parent_to_submesh_element_ids = [1 \<mapsto> 1, 3 \<mapsto> 2],
       parent_node_ids = [0, 1, 2],
       parent_to_submesh_node_ids = [0 \<mapsto> 0, 1 \<mapsto> 1, 2 \<mapsto> 2]\<rparr>,
      replicate 3 (FaceNodes 0 0 0 0))"


text \<open>
  A parent mesh with that boundary edge. Three quadrilaterals with the ranks 1, 2 and 2 lie at
  the leaves; the face table has the three leaf edges in the slots 1, 3 and 4 and two unused
  slots; the coarser edges are not in the table. The element constructor gives a new element
  the rank 0, no parent, the tag 0 and arrays filled with \<open>-1\<close>.
\<close>

definition segment_info :: "Geometry \<Rightarrow> GeomInfo" where
  "segment_info g = \<lparr>nv = 2, edges = [(0, 1)]\<rparr>"

definition blank_element :: "Geometry \<Rightarrow> int \<Rightarrow> Element" where
  "blank_element g a =
     \<lparr>geom = g, ref_type = 0, index = -1, rank = 0, attribute = a,
      node = replicate 8 (-1), child = replicate 10 (-1), parent = -1\<rparr>"

definition quadrilateral :: "int \<Rightarrow> int list \<Rightarrow> Element" where
  "quadrilateral r ns =
     \<lparr>geom = SQUARE, ref_type = 0, index = 0, rank = r, attribute = 1,
      node = ns @ replicate 4 (-1), child = replicate 10 (-1), parent = -1\<rparr>"

definition boundary_face :: "int \<Rightarrow> int \<Rightarrow> Face" where
  "boundary_face e i =
     \<lparr>face_unused = False, face_attribute = 1, face_elem0 = e, face_elem1 = -1, face_index = i\<rparr>"

definition unused_face :: Face where
  "unused_face =
     \<lparr>face_unused = True, face_attribute = -1, face_elem0 = -1, face_elem1 = -1, face_index = -1\<rparr>"

definition edge_parent :: "FaceNodes \<Rightarrow> int \<times> FaceNodes" where
  "edge_parent fn =
     (if fn = FaceNodes 0 0 2 2 then (0, FaceNodes 0 0 1 1)
      else if fn = FaceNodes 2 2 1 1 then (1, FaceNodes 0 0 1 1)
      else if fn = FaceNodes 2 2 3 3 then (0, FaceNodes 2 2 1 1)
      else if fn = FaceNodes 3 3 1 1 then (1, FaceNodes 2 2 1 1)
      else (-1, fn))"

definition edge_mesh :: ParNCMesh where
  "edge_mesh =
     \<lparr>parent_elements = [quadrilateral 1 [0, 2, 8, 9], quadrilateral 2 [2, 3, 10, 8],
                         quadrilateral 2 [3, 1, 11, 10]],
      parent_faces = [unused_face, boundary_face 0 0, unused_face, boundary_face 1 1,
                      boundary_face 2 2],
      nodes_FindId = (\<lambda>a b. 20 + min a b),
      faces_FindId = (\<lambda>a b c d. -1),
      FindFaceNodes = (\<lambda>f. if face_index f = 0 then FaceNodes 0 0 2 2
                            else if face_index f = 1 then FaceNodes 2 2 3 3
                            else FaceNodes 3 3 1 1),
      ParentFaceNodes = edge_parent,
      GetMeshIdType = (\<lambda>i. UNRECOGNIZED),
      vertex_nodeId = [0, 1, 2, 3, 8, 9, 10, 11],
      GI = (\<lambda>g. if g = SQUARE then \<lparr>nv = 4, edges = [(0, 1), (1, 2), (2, 3), (3, 0)]\<rparr>
                   else segment_info g),
      ref_type_num_children = (\<lambda>r. 2),
      new_Element = blank_element\<rparr>"

definition edge_submesh :: ParSubMesh where
  "edge_submesh =
     \<lparr>Dimension = 1, GetSubMeshElementFromParent = (\<lambda>i. i), GetParentVertexIDMap = [0, 1, 2, 3]\<rparr>"

text \<open>
  A boundary triangle refined twice. The coarse triangle has the corners 1, 2 and 3 and the
  edge midpoints 4 (between 1 and 2), 5 and 6 (between 3 and 1); its child at the corner 1 is
  the triangle (1, 4, 6) with the edge midpoints 7, 8 and 9, whose child at the corner 1 is
  (1, 7, 9) and whose middle child is (8, 9, 7). A corner child has the slot of its corner;
  the middle child has the slot 3. The function \<open>triangle_parent\<close> answers for the tuples
  that occur: from the middle child the coarser triangle comes out rotated, as (4, 6, 1), and
  from that tuple the coarse triangle comes out as (2, 3, 1) with the child in the slot 2 of
  the corner 1; from the corner child it comes out as (1, 4, 6), and from that tuple the
  coarse triangle as (1, 2, 3) with the child in the slot 0. The face table holds the middle
  child first and the corner child second.
\<close>

definition triangle_parent :: "FaceNodes \<Rightarrow> int \<times> FaceNodes" where
  "triangle_parent fn =
     (if fn = FaceNodes 8 9 7 (-1) then (3, FaceNodes 4 6 1 (-1))
      else if fn = FaceNodes 4 6 1 (-1) then (2, FaceNodes 2 3 1 (-1))
      else if fn = FaceNodes 1 7 9 (-1) then (0, FaceNodes 1 4 6 (-1))
      else if fn = FaceNodes 1 4 6 (-1) then (0, FaceNodes 1 2 3 (-1))
      else (-1, fn))"

definition triangle_mesh :: ParNCMesh where
  "triangle_mesh =
     \<lparr>parent_elements =
        [\<lparr>geom = TETRAHEDRON, ref_type = 0, index = 0, rank = 0, attribute = 1,
          node = [8, 9, 7, 30, -1, -1, -1, -1], child = replicate 10 (-1), parent = -1\<rparr>,
         \<lparr>geom = TETRAHEDRON, ref_type = 0, index = 1, rank = 0, attribute = 1,
          node = [1, 7, 9, 31, -1, -1, -1, -1], child = replicate 10 (-1), parent = -1\<rparr>],
      parent_faces = [boundary_face 0 0, boundary_face 1 1],
      nodes_FindId = (\<lambda>a b. 40 + min a b),
      faces_FindId = (\<lambda>a b c d. -1),
      FindFaceNodes = (\<lambda>f. if face_index f = 0 then FaceNodes 8 9 7 (-1)
                            else FaceNodes 1 7 9 (-1)),
      ParentFaceNodes = triangle_parent,
      GetMeshIdType = (\<lambda>i. CONFORMING),
      vertex_nodeId = [1, 7, 8, 9, 30, 31],
      GI = (\<lambda>g. \<lparr>nv = 3, edges = [(0, 1), (1, 2), (2, 0)]\<rparr>),
      ref_type_num_children = (\<lambda>r. 4),
      new_Element = blank_element\<rparr>"

definition triangle_submesh :: ParSubMesh where
  "triangle_submesh =
     \<lparr>Dimension = 2, GetSubMeshElementFromParent = (\<lambda>i. i), GetParentVertexIDMap = [0, 1, 2, 3]\<rparr>"

text \<open>The owning submesh of a domain extraction from the same parent mesh.\<close>

definition domain_submesh :: ParSubMesh where
  "domain_submesh =
     \<lparr>Dimension = 2, GetSubMeshElementFromParent = (\<lambda>i. i),
      GetParentVertexIDMap = [0, 1, 2, 3, 4, 5, 6, 7]\<rparr>"

text \<open>What is observed of the result of the boundary pass and of the domain pass.\<close>

definition boundary_view ::
  "UniqueIndexGenerator \<times> ParNCSubMesh \<times> FaceNodes list \<Rightarrow>
   (int \<times> int \<times> int \<times> int list) list \<times> int list" where
  "boundary_view r = view (snd r)"

definition domain_view :: "UniqueIndexGenerator \<times> ParNCSubMesh \<Rightarrow> int \<times> int list \<times> int list list" where
  "domain_view r = (counter (fst r), parent_node_ids (snd r), map node (elements (snd r)))"

section \<open>Properties\<close>

subsection \<open>Face geometry\<close>

text \<open>
  The lambda tests the fourth node first, the specification words the test of the node pairs
  first. The two orders give different geometries on exactly the tuples whose first two
  nodes are equal and whose third and fourth nodes are both \<open>-1\<close>; no such tuple is a
  face tuple, whose third entry is a node id.
\<close>

lemma face_geom_orders_differ:
  "(face_geom_from_nodes (FaceNodes n0 n1 n2 n3) \<noteq> face_geom_spec (FaceNodes n0 n1 n2 n3)) =
   (n0 = n1 \<and> n2 = -1 \<and> n3 = -1)"
  by simp

text \<open>
  The two places where the pass creates an element from a node tuple: the ancestor added at
  line 284 and the face element added at line 222 are constructed with the geometry that the
  lambda gives for the tuple.
\<close>

lemma add_parent_element:
  "fst (add_parent P attr fn d) = length (elements (mesh d)) \<and>
   elements (mesh (snd (add_parent P attr fn d))) =
     elements (mesh d) @ [new_Element P (face_geom_from_nodes fn) attr]"
  by (simp add: add_parent_def AddElement_def Let_def)

lemma add_face_element_geom:
  assumes "add_face_element P i face fn d = Inr (k, d')"
  shows "k = length (elements (mesh d)) \<and>
         geom (elements (mesh d') ! k) =
           geom (new_Element P (face_geom_from_nodes fn) (face_attribute face))"
  using assms
  by (auto simp: add_face_element_def AddElement_def Let_def split: sum.splits if_splits)

text \<open>
  C7: for every face tuple, the geometry that the lambda gives is the one of the
  specification's rule (segment if the node pairs are equal, else triangle if the fourth
  node is \<open>-1\<close>, else quadrilateral), and it is the geometry with which the pass
  constructs the element for the tuple, at the ancestor of line 284 and at the face element
  of line 222. A face tuple meets at most one of the first two conditions, so the order of
  the tests does not show.
\<close>

theorem face_geom_as_specified:
  assumes "face_tuple fn"
  shows "face_geom_from_nodes fn = face_geom_spec fn \<and>
         fst (add_parent P attr fn d) = length (elements (mesh d)) \<and>
         elements (mesh (snd (add_parent P attr fn d))) =
           elements (mesh d) @ [new_Element P (face_geom_spec fn) attr] \<and>
         (add_face_element P i face fn d = Inr (k, d') \<longrightarrow>
            k = length (elements (mesh d)) \<and>
            geom (elements (mesh d') ! k) =
              geom (new_Element P (face_geom_spec fn) (face_attribute face)))"
proof -
  have eq: "face_geom_from_nodes fn = face_geom_spec fn"
    using assms by (cases fn) auto
  show ?thesis
    using add_parent_element [of P attr fn d] add_face_element_geom [of P i face fn d k d']
    by (simp add: eq)
qed

lemma edge_mesh_first_face:
  "\<exists>d'. add_face_element edge_mesh 1 (boundary_face 0 0) (FaceNodes 0 0 2 2)
          \<lparr>mesh = fresh_submesh 0 3, pnodes_new_elem = [], new_nodes = []\<rparr> = Inr (0, d')"
  by (simp add: add_face_element_def AddElement_def face_rank_def edge_mesh_def boundary_face_def
      quadrilateral_def blank_element_def fresh_submesh_def MaxFaceNodes_def segment_info_def Let_def)

theorem face_geom_as_specified_witness:
  "face_tuple (FaceNodes 0 0 2 2) \<and> face_geom_from_nodes (FaceNodes 0 0 2 2) = SEGMENT \<and>
   face_tuple (FaceNodes 4 6 1 (-1)) \<and> face_geom_from_nodes (FaceNodes 4 6 1 (-1)) = TRIANGLE \<and>
   face_tuple (FaceNodes 1 2 3 4) \<and> face_geom_from_nodes (FaceNodes 1 2 3 4) = SQUARE \<and>
   (\<exists>d'. add_face_element edge_mesh 1 (boundary_face 0 0) (FaceNodes 0 0 2 2)
            \<lparr>mesh = fresh_submesh 0 3, pnodes_new_elem = [], new_nodes = []\<rparr> = Inr (0, d') \<and>
         geom (elements (mesh d') ! 0) = SEGMENT) \<and>
   elements (mesh (snd (add_parent triangle_mesh 1 (FaceNodes 4 6 1 (-1))
      \<lparr>mesh = fresh_submesh 0 1, pnodes_new_elem = [], new_nodes = []\<rparr>))) =
     [blank_element TRIANGLE 1]"
proof -
  let ?d0 = "\<lparr>mesh = fresh_submesh 0 3, pnodes_new_elem = [], new_nodes = []\<rparr>"
  let ?d1 = "\<lparr>mesh = fresh_submesh 0 1, pnodes_new_elem = [], new_nodes = []\<rparr>"
  from edge_mesh_first_face obtain d' where
    run: "add_face_element edge_mesh 1 (boundary_face 0 0) (FaceNodes 0 0 2 2) ?d0 = Inr (0, d')"
    by blast
  have segment: "face_tuple (FaceNodes 0 0 2 2)" by simp
  have triangle: "face_tuple (FaceNodes 4 6 1 (-1))" by simp
  have square: "face_tuple (FaceNodes 1 2 3 4)" by simp
  have a: "face_geom_from_nodes (FaceNodes 0 0 2 2) = SEGMENT \<and>
           geom (elements (mesh d') ! 0) = SEGMENT"
    using face_geom_as_specified [OF segment, of edge_mesh 1 ?d0 1 "boundary_face 0 0" 0 d'] run
    by (simp add: edge_mesh_def blank_element_def boundary_face_def)
  have b: "face_geom_from_nodes (FaceNodes 4 6 1 (-1)) = TRIANGLE \<and>
           elements (mesh (snd (add_parent triangle_mesh 1 (FaceNodes 4 6 1 (-1)) ?d1))) =
             [blank_element TRIANGLE 1]"
    using face_geom_as_specified [OF triangle, of triangle_mesh 1 ?d1 0 "boundary_face 0 0" 0 ?d1]
    by (simp add: triangle_mesh_def fresh_submesh_def)
  have c: "face_geom_from_nodes (FaceNodes 1 2 3 4) = SQUARE"
    using face_geom_as_specified [OF square, of edge_mesh 1 ?d0 1 "boundary_face 0 0" 0 ?d0]
    by simp
  from a b c segment triangle square run show ?thesis by blast
qed

subsection \<open>The registry\<close>

lemma Get_known: "idx g p = Some j \<Longrightarrow> Get g p = ((j, False), g)"
  by (simp add: Get_def)

lemma Get_fresh:
  "idx g p = None \<Longrightarrow>
   Get g p = ((counter g, True), g\<lparr>counter := counter g + 1, idx := (idx g)(p \<mapsto> counter g)\<rparr>)"
  by (simp add: Get_def)

lemma Get_keeps: "idx g k = Some v \<Longrightarrow> idx (snd (Get g q)) k = Some v"
  by (auto simp: Get_def split: option.splits)

lemma Get_dom: "dom (idx (snd (Get g q))) = insert q (dom (idx g))"
  by (auto simp: Get_def split: option.splits)

lemma Get_new_iff: "snd (fst (Get g q)) = (idx g q = None)"
  by (simp add: Get_def split: option.splits)

lemma Get_registers: "idx (snd (Get g q)) q = Some (fst (fst (Get g q)))"
  by (simp add: Get_def split: option.splits)

lemma Gets_Nil: "Gets g [] = g"
  by (simp add: Gets_def)

lemma Gets_Cons: "Gets g (q # qs) = Gets (snd (Get g q)) qs"
  by (simp add: Gets_def)

lemma Gets_keeps: "idx g k = Some v \<Longrightarrow> idx (Gets g qs) k = Some v"
  by (induction qs arbitrary: g) (simp_all add: Gets_Nil Gets_Cons Get_keeps)

lemma counts_Get: "counts g \<Longrightarrow> counts (snd (Get g q))"
proof (cases "idx g q")
  case None
  then have "q \<notin> dom (idx g)" by (simp add: domIff)
  moreover assume "counts g"
  ultimately show ?thesis using None by (simp add: counts_def Get_def)
next
  case (Some j)
  moreover assume "counts g"
  ultimately show ?thesis by (simp add: Get_def)
qed

lemma counts_Gets: "counts g \<Longrightarrow> counts (Gets g qs)"
  by (induction qs arbitrary: g) (simp_all add: Gets_Nil Gets_Cons counts_Get)

lemma dom_Gets: "dom (idx (Gets g qs)) = dom (idx g) \<union> set qs"
  by (induction qs arbitrary: g) (auto simp: Gets_Nil Gets_Cons Get_dom)

lemma counts_empty: "counts empty_generator"
  by (simp add: counts_def empty_generator_def)

lemma counter_Gets_empty: "counter (Gets empty_generator qs) = int (card (set qs))"
  using counts_Gets [OF counts_empty, of qs] dom_Gets [of empty_generator qs]
  by (simp add: counts_def empty_generator_def)

text \<open>
  C8: after any sequence \<open>qs\<close> of calls on the empty registry, the first call for a parent
  id \<open>p\<close> that was not asked for before returns the number of distinct ids asked for so
  far (the ids are given out in first-touch order, from zero and without gaps) with the
  flag set; a call for an id asked for before returns with the flag cleared; after the call
  for \<open>p\<close> and any further calls \<open>rs\<close>, a call for \<open>p\<close> returns the same id with the
  flag cleared; and no call removes or changes an entry.
\<close>

theorem registry_first_touch:
  "(p \<notin> set qs \<longrightarrow> fst (Get (Gets empty_generator qs) p) = (int (card (set qs)), True)) \<and>
   (p \<in> set qs \<longrightarrow> snd (fst (Get (Gets empty_generator qs) p)) = False) \<and>
   fst (Get (Gets (snd (Get (Gets empty_generator qs) p)) rs) p) =
     (fst (fst (Get (Gets empty_generator qs) p)), False) \<and>
   (idx (Gets empty_generator qs) k = Some v \<longrightarrow>
      idx (snd (Get (Gets empty_generator qs) q)) k = Some v)"
proof (intro conjI impI)
  let ?g = "Gets empty_generator qs"
  have d: "dom (idx ?g) = set qs"
    using dom_Gets [of empty_generator qs] by (simp add: empty_generator_def)
  show "fst (Get ?g p) = (int (card (set qs)), True)" if "p \<notin> set qs"
  proof -
    from that d have "idx ?g p = None" by blast
    then show ?thesis by (simp add: Get_fresh counter_Gets_empty)
  qed
  show "snd (fst (Get ?g p)) = False" if "p \<in> set qs"
  proof -
    from that d obtain j where "idx ?g p = Some j" by blast
    then show ?thesis by (simp add: Get_known)
  qed
  show "fst (Get (Gets (snd (Get ?g p)) rs) p) = (fst (fst (Get ?g p)), False)"
  proof -
    have "idx (Gets (snd (Get ?g p)) rs) p = Some (fst (fst (Get ?g p)))"
      by (rule Gets_keeps) (rule Get_registers)
    then show ?thesis by (simp add: Get_known)
  qed
  show "idx (snd (Get ?g q)) k = Some v" if "idx ?g k = Some v"
    using that by (rule Get_keeps)
qed

theorem registry_first_touch_witness:
  "(7::int) \<notin> set [5, 3, 5] \<and>
   fst (Get (Gets empty_generator [5, 3, 5]) 7) = (2, True) \<and>
   (3::int) \<in> set [5, 3, 5] \<and>
   fst (Get (Gets empty_generator [5, 3, 5]) 3) = (1, False) \<and>
   fst (Get (Gets (snd (Get (Gets empty_generator [5, 3, 5]) 7)) [9, 3]) 7) = (2, False) \<and>
   idx (Gets empty_generator [5, 3, 5]) 3 = Some 1 \<and>
   idx (snd (Get (Gets empty_generator [5, 3, 5]) 7)) 3 = Some 1"
proof -
  have a: "idx (Gets empty_generator [5, 3, 5]) 3 = Some 1"
    by (simp add: Gets_def Get_def empty_generator_def)
  have b: "fst (Get (Gets empty_generator [5, 3, 5]) 3) = (1, False)"
    using a by (simp add: Get_known)
  have c: "card (set [5, 3, 5 :: int]) = 2" by code_simp
  show ?thesis
    using registry_first_touch [of 7 "[5, 3, 5]" "[9, 3]" 3 1 7] a b c by simp
qed

subsection \<open>Loops that can abort\<close>

lemma foldE_never: "(\<And>x s. f x s \<noteq> Inl e) \<Longrightarrow> foldE f xs s \<noteq> Inl e"
  by (induction xs arbitrary: s) (auto split: sum.splits)

lemma foldE_invariant:
  assumes "foldE f xs s = Inr s'" and "I s"
    and "\<And>x s s'. x \<in> set xs \<Longrightarrow> I s \<Longrightarrow> f x s = Inr s' \<Longrightarrow> I s'"
  shows "I s'"
  using assms
proof (induction xs arbitrary: s)
  case Nil
  then show ?case by simp
next
  case (Cons x xs)
  from Cons.prems(1) obtain s1 where a: "f x s = Inr s1" and b: "foldE f xs s1 = Inr s'"
    by (auto split: sum.splits)
  have s1: "I s1" using Cons.prems(3) [OF _ Cons.prems(2) a] by simp
  show ?case
  proof (rule Cons.IH [OF b s1])
    fix y t t' assume "y \<in> set xs" "I t" "f y t = Inr t'"
    then show "I t'" using Cons.prems(3) [of y t t'] by simp
  qed
qed

subsection \<open>The domain pass never meets a new vertex node\<close>

lemma set_set_insert: "set (set_insert x xs) = insert x (set xs)"
  by (auto simp: set_insert_def set_insort_key)

lemma set_fold_set_insert:
  "set (fold (\<lambda>x ns. set_insert (f x) ns) xs ns0) = f ` set xs \<union> set ns0"
  by (induction xs arbitrary: ns0) (auto simp: set_set_insert)

lemma vertices_in_mono: "vertices_in P els K \<Longrightarrow> K \<subseteq> K' \<Longrightarrow> vertices_in P els K'"
  unfolding vertices_in_def by blast

lemma vertices_in_snoc:
  "vertices_in P (els @ [el]) K =
     (vertices_in P els K \<and> (IsLeaf el \<longrightarrow> (\<forall>n < nv (GI P (geom el)). node el ! n \<in> K)))"
  unfolding vertices_in_def by auto

lemma collect_parent_element_vertices:
  assumes "collect_parent_element P S attributes ipe s = Inr s'"
    and "vertices_in P (elements (fst s)) (set (snd s))"
  shows "vertices_in P (elements (fst s')) (set (snd s'))"
proof (cases "HasAttribute (attribute (parent_elements P ! ipe)) attributes")
  case False
  with assms show ?thesis by (simp add: collect_parent_element_def Let_def)
next
  case True
  define pe where "pe = parent_elements P ! ipe"
  define el where "el = pe\<lparr>index := GetSubMeshElementFromParent S (index pe)\<rparr>"
  have els: "elements (fst s') = elements (fst s) @ [el]"
    using assms(1) True
    by (auto simp: collect_parent_element_def Let_def AddElement_def pe_def el_def
        split: if_splits)
  have el: "IsLeaf el = IsLeaf pe" "geom el = geom pe" "node el = node pe"
    by (simp_all add: el_def IsLeaf_def)
  show ?thesis
  proof (cases "IsLeaf pe")
    case False
    with assms True have "snd s' = snd s"
      by (auto simp: collect_parent_element_def Let_def AddElement_def pe_def split: if_splits)
    with assms(2) els el False show ?thesis by (simp add: vertices_in_snoc)
  next
    case leaf: True
    have ns: "snd s' =
        fold (\<lambda>e ns. set_insert (nodes_FindId P (node pe ! fst e) (node pe ! snd e)) ns)
          (edges (GI P (geom pe)))
          (fold (\<lambda>n ns. set_insert (node pe ! n) ns) [0..<nv (GI P (geom pe))] (snd s))"
      using assms(1) True leaf
      by (auto simp: collect_parent_element_def Let_def AddElement_def pe_def split: if_splits)
    have sub: "set (snd s) \<subseteq> set (snd s')"
      unfolding ns by (auto simp: set_fold_set_insert)
    have new: "node pe ! n \<in> set (snd s')" if "n < nv (GI P (geom pe))" for n
      unfolding ns using that by (auto simp: set_fold_set_insert)
    show ?thesis
      using vertices_in_mono [OF assms(2) sub] els el new by (simp add: vertices_in_snoc)
  qed
qed

lemma collect_never_new: "collect_parent_element P S attributes ipe s \<noteq> Inl ShouldNotBeNew"
  by (auto simp: collect_parent_element_def Let_def AddElement_def split: if_splits prod.splits)

lemma register_node_effect:
  assumes "register_node n s = Inr s'"
  shows "dom (idx (fst s')) = insert n (dom (idx (fst s)))" "elements (snd s') = elements (snd s)"
  using assms
  by (auto simp: register_node_def Let_def Get_def split: option.splits if_splits)

lemma register_node_never_new: "register_node n s \<noteq> Inl ShouldNotBeNew"
  by (auto simp: register_node_def Let_def split: prod.splits if_splits)

lemma bind_vertex_effect:
  assumes "bind_vertex P v s = Inr s'"
  shows "dom (idx (fst s)) \<subseteq> dom (idx (fst s'))" "snd s' = snd s"
  using assms
  by (auto simp: bind_vertex_def Let_def Get_def split: option.splits if_splits)

lemma bind_vertex_never_new: "bind_vertex P v s \<noteq> Inl ShouldNotBeNew"
  by (auto simp: bind_vertex_def Let_def split: prod.splits if_splits)

lemma relabel_vertex_effect:
  assumes "relabel_vertex n s = Inr s'"
  shows "fst s' = fst s" "length (node (snd s')) = length (node (snd s))"
    "\<And>k. k \<noteq> n \<Longrightarrow> node (snd s') ! k = node (snd s) ! k"
    "geom (snd s') = geom (snd s)"
  using assms
  by (auto simp: relabel_vertex_def Let_def Get_def split: prod.splits if_splits option.splits)

lemma relabel_vertex_known:
  "n < length (node (snd s)) \<longrightarrow> node (snd s) ! n \<in> dom (idx (fst s)) \<Longrightarrow>
   relabel_vertex n s \<noteq> Inl ShouldNotBeNew"
  by (auto simp: relabel_vertex_def Let_def Get_def split: prod.splits if_splits option.splits)

lemma relabel_vertices_known:
  "distinct ns \<Longrightarrow> (\<forall>n \<in> set ns. node (snd s) ! n \<in> dom (idx (fst s))) \<Longrightarrow>
   foldE relabel_vertex ns s \<noteq> Inl ShouldNotBeNew"
proof (induction ns arbitrary: s)
  case Nil
  show ?case by simp
next
  case (Cons n ns)
  show ?case
  proof (cases "relabel_vertex n s")
    case (Inl e)
    moreover have "relabel_vertex n s \<noteq> Inl ShouldNotBeNew"
      by (rule relabel_vertex_known) (use Cons.prems in simp)
    ultimately show ?thesis by simp
  next
    case (Inr s1)
    note eff = relabel_vertex_effect [OF Inr]
    have "\<forall>k \<in> set ns. node (snd s1) ! k \<in> dom (idx (fst s1))"
    proof
      fix k assume k: "k \<in> set ns"
      then have "k \<noteq> n" using Cons.prems(1) by auto
      then have "node (snd s1) ! k = node (snd s) ! k" by (rule eff(3))
      then show "node (snd s1) ! k \<in> dom (idx (fst s1))"
        using Cons.prems(2) k eff(1) by simp
    qed
    then have "foldE relabel_vertex ns s1 \<noteq> Inl ShouldNotBeNew"
      using Cons.IH Cons.prems(1) by simp
    with Inr show ?thesis by simp
  qed
qed

lemma relabel_vertices_registry: "foldE relabel_vertex ns s = Inr s' \<Longrightarrow> fst s' = fst s"
  by (rule foldE_invariant [where I = "\<lambda>x. fst x = fst s"]) (auto dest: relabel_vertex_effect(1))

lemma reference_edge_effect:
  assumes "reference_edge P el e s = Inr s'"
  shows "dom (idx (fst s)) \<subseteq> dom (idx (fst s'))" "elements (snd s') = elements (snd s)"
  using assms
  by (auto simp: reference_edge_def Let_def Get_def split: option.splits if_splits)

lemma reference_edge_never_new: "reference_edge P el e s \<noteq> Inl ShouldNotBeNew"
  by (auto simp: reference_edge_def Let_def split: prod.splits if_splits)

lemma remap_child_never_new: "remap_child i s \<noteq> Inl ShouldNotBeNew"
  by (auto simp: remap_child_def Let_def split: option.splits)

lemma remap_parent_never_new: "remap_parent el mp \<noteq> Inl ShouldNotBeNew"
  by (auto simp: remap_parent_def split: option.splits)

lemma reference_edges_effect:
  assumes "foldE (reference_edge P el) es s = Inr s'"
  shows "dom (idx (fst s)) \<subseteq> dom (idx (fst s')) \<and> elements (snd s') = elements (snd s)"
proof (rule foldE_invariant [OF assms,
        where I = "\<lambda>x. dom (idx (fst s)) \<subseteq> dom (idx (fst x)) \<and> elements (snd x) = elements (snd s)"])
  show "dom (idx (fst s)) \<subseteq> dom (idx (fst s)) \<and> elements (snd s) = elements (snd s)" by simp
next
  fix e t t'
  assume I: "dom (idx (fst s)) \<subseteq> dom (idx (fst t)) \<and> elements (snd t) = elements (snd s)"
    and step: "reference_edge P el e t = Inr t'"
  have "dom (idx (fst s)) \<subseteq> dom (idx (fst t'))"
    by (rule order_trans [OF conjunct1 [OF I] reference_edge_effect(1) [OF step]])
  then show "dom (idx (fst s)) \<subseteq> dom (idx (fst t')) \<and> elements (snd t') = elements (snd s)"
    using reference_edge_effect(2) [OF step] I by simp
qed

lemma relabel_element_effect:
  assumes "relabel_element P i s = Inr s'"
  shows "dom (idx (fst s)) \<subseteq> dom (idx (fst s'))"
    and "elements (snd s') = (elements (snd s))[i := elements (snd s') ! i]"
proof -
  let ?el = "elements (snd s) ! i"
  have "dom (idx (fst s)) \<subseteq> dom (idx (fst s')) \<and>
        (\<exists>el2. elements (snd s') = (elements (snd s))[i := el2])"
  proof (cases "IsLeaf ?el")
    case True
    with assms obtain g1 el1 g2 m2 el2 where
      a: "foldE relabel_vertex [0..<nv (GI P (geom ?el))] (fst s, ?el) = Inr (g1, el1)"
      and b: "foldE (reference_edge P el1) (edges (GI P (geom ?el))) (g1, snd s) = Inr (g2, m2)"
      and c: "s' = (g2, m2\<lparr>elements := (elements m2)[i := el2]\<rparr>)"
      by (auto simp: relabel_element_def Let_def split: sum.splits prod.splits)
    have "g1 = fst s" using relabel_vertices_registry [OF a] by simp
    with reference_edges_effect [OF b] c show ?thesis by auto
  next
    case False
    with assms obtain mp el2 where
      "s' = (fst s, (snd s)\<lparr>parent_to_submesh_element_ids := mp,
           elements := (elements (snd s))[i := el2]\<rparr>)"
      by (auto simp: relabel_element_def Let_def split: sum.splits prod.splits)
    then show ?thesis by auto
  qed
  then obtain el2 where e: "elements (snd s') = (elements (snd s))[i := el2]"
    and d: "dom (idx (fst s)) \<subseteq> dom (idx (fst s'))" by blast
  show "dom (idx (fst s)) \<subseteq> dom (idx (fst s'))" by (rule d)
  show "elements (snd s') = (elements (snd s))[i := elements (snd s') ! i]"
  proof (cases "i < length (elements (snd s))")
    case True
    then show ?thesis using e by simp
  next
    case False
    then show ?thesis using e by (simp add: list_update_beyond)
  qed
qed

lemma relabel_element_known:
  assumes "IsLeaf (elements (snd s) ! i) \<longrightarrow>
     (\<forall>n < nv (GI P (geom (elements (snd s) ! i))).
        node (elements (snd s) ! i) ! n \<in> dom (idx (fst s)))"
  shows "relabel_element P i s \<noteq> Inl ShouldNotBeNew"
proof (cases "IsLeaf (elements (snd s) ! i)")
  case True
  let ?el = "elements (snd s) ! i"
  have v: "foldE relabel_vertex [0..<nv (GI P (geom ?el))] (fst s, ?el) \<noteq> Inl ShouldNotBeNew"
    by (rule relabel_vertices_known) (use assms True in auto)
  have e: "foldE (reference_edge P el1) es x \<noteq> Inl ShouldNotBeNew" for el1 es x
    by (rule foldE_never) (rule reference_edge_never_new)
  show ?thesis
    using True v e remap_parent_never_new
    by (auto simp: relabel_element_def Let_def split: sum.splits prod.splits)
next
  case False
  have c: "foldE remap_child cs x \<noteq> Inl ShouldNotBeNew" for cs x
    by (rule foldE_never) (rule remap_child_never_new)
  show ?thesis
    using False c remap_parent_never_new
    by (auto simp: relabel_element_def Let_def split: sum.splits prod.splits)
qed

lemma second_walk_never_new:
  "distinct is \<Longrightarrow>
   (\<forall>i \<in> set is. IsLeaf (elements (snd s) ! i) \<longrightarrow>
      (\<forall>n < nv (GI P (geom (elements (snd s) ! i))).
         node (elements (snd s) ! i) ! n \<in> dom (idx (fst s)))) \<Longrightarrow>
   foldE (relabel_element P) is s \<noteq> Inl ShouldNotBeNew"
proof (induction "is" arbitrary: s)
  case Nil
  show ?case by simp
next
  case (Cons i "is")
  show ?case
  proof (cases "relabel_element P i s")
    case (Inl e)
    moreover have "relabel_element P i s \<noteq> Inl ShouldNotBeNew"
      by (rule relabel_element_known) (use Cons.prems in simp)
    ultimately show ?thesis by simp
  next
    case (Inr s1)
    note eff = relabel_element_effect [OF Inr]
    have same: "elements (snd s1) ! j = elements (snd s) ! j" if "j \<in> set is" for j
    proof -
      from that Cons.prems(1) have "j \<noteq> i" by auto
      then show ?thesis by (subst eff(2)) simp
    qed
    have "\<forall>j \<in> set is. IsLeaf (elements (snd s1) ! j) \<longrightarrow>
      (\<forall>n < nv (GI P (geom (elements (snd s1) ! j))).
         node (elements (snd s1) ! j) ! n \<in> dom (idx (fst s1)))"
    proof (intro ballI impI allI)
      fix j n
      assume j: "j \<in> set is" and leaf: "IsLeaf (elements (snd s1) ! j)"
        and n: "n < nv (GI P (geom (elements (snd s1) ! j)))"
      have "node (elements (snd s) ! j) ! n \<in> dom (idx (fst s))"
        using Cons.prems(2) j leaf n same [OF j] by simp
      then show "node (elements (snd s1) ! j) ! n \<in> dom (idx (fst s1))"
        using eff(1) same [OF j] by auto
    qed
    then have "foldE (relabel_element P) is s1 \<noteq> Inl ShouldNotBeNew"
      using Cons.IH Cons.prems(1) by simp
    with Inr show ?thesis by simp
  qed
qed

lemma first_walk_vertices:
  assumes "foldE (collect_parent_element P S attributes) ipes (m0, []) = Inr s1"
    and "elements m0 = []"
  shows "vertices_in P (elements (fst s1)) (set (snd s1))"
  by (rule foldE_invariant [OF assms(1),
        where I = "\<lambda>x. vertices_in P (elements (fst x)) (set (snd x))"])
     (simp_all add: assms(2) vertices_in_def collect_parent_element_vertices [unfolded vertices_in_def])

lemma registration_effect:
  assumes "foldE register_node ns s = Inr s'"
  shows "set ns \<subseteq> dom (idx (fst s')) \<and> elements (snd s') = elements (snd s)"
proof -
  have "dom (idx (fst s')) = dom (idx (fst s)) \<union> set ns \<and> elements (snd s') = elements (snd s)"
    using assms
  proof (induction ns arbitrary: s)
    case Nil
    then show ?case by simp
  next
    case (Cons n ns)
    from Cons.prems obtain s1 where a: "register_node n s = Inr s1"
      and b: "foldE register_node ns s1 = Inr s'" by (auto split: sum.splits)
    show ?case using Cons.IH [OF b] register_node_effect [OF a] by auto
  qed
  then show ?thesis by auto
qed

lemma vertex_loop_effect:
  assumes "foldE (bind_vertex P) vs s = Inr s'"
  shows "dom (idx (fst s)) \<subseteq> dom (idx (fst s')) \<and> snd s' = snd s"
proof (rule foldE_invariant [OF assms,
        where I = "\<lambda>x. dom (idx (fst s)) \<subseteq> dom (idx (fst x)) \<and> snd x = snd s"])
  show "dom (idx (fst s)) \<subseteq> dom (idx (fst s)) \<and> snd s = snd s" by simp
next
  fix v t t'
  assume I: "dom (idx (fst s)) \<subseteq> dom (idx (fst t)) \<and> snd t = snd s"
    and step: "bind_vertex P v t = Inr t'"
  have "dom (idx (fst s)) \<subseteq> dom (idx (fst t'))"
    by (rule order_trans [OF conjunct1 [OF I] bind_vertex_effect(1) [OF step]])
  then show "dom (idx (fst s)) \<subseteq> dom (idx (fst t')) \<and> snd t' = snd s"
    using bind_vertex_effect(2) [OF step] I by simp
qed

text \<open>
  C9: the domain pass never aborts at the assertion of line 123. Every vertex node of every
  leaf that the first walk copied is in the collected set, the registration enters every
  collected id in the registry, the registry keeps what it holds, and the second walk
  translates each vertex slot of each leaf before anything overwrites it; so each
  translation finds its id and returns \<open>is_new = false\<close>. The object is fresh when the
  pass starts.
\<close>

theorem domain_vertices_never_new:
  assumes "elements m0 = []"
  shows "domain_pass P S attributes m0 \<noteq> Inl ShouldNotBeNew"
proof (cases "foldE (collect_parent_element P S attributes) [0..<length (parent_elements P)] (m0, [])")
  case (Inl e)
  moreover have "foldE (collect_parent_element P S attributes) [0..<length (parent_elements P)] (m0, [])
      \<noteq> Inl ShouldNotBeNew"
    by (rule foldE_never) (rule collect_never_new)
  ultimately show ?thesis by (simp add: domain_pass_def)
next
  case walk1: (Inr s1)
  obtain m1 ns where s1: "s1 = (m1, ns)" by (cases s1)
  have v1: "vertices_in P (elements m1) (set ns)"
    using first_walk_vertices [OF walk1 assms] s1 by simp
  show ?thesis
  proof (cases "foldE register_node ns (empty_generator, m1)")
    case (Inl e)
    moreover have "foldE register_node ns (empty_generator, m1) \<noteq> Inl ShouldNotBeNew"
      by (rule foldE_never) (rule register_node_never_new)
    ultimately show ?thesis using walk1 s1 by (simp add: domain_pass_def)
  next
    case reg: (Inr s2)
    note r = registration_effect [OF reg]
    show ?thesis
    proof (cases "foldE (bind_vertex P) (GetParentVertexIDMap S) s2")
      case (Inl e)
      moreover have "foldE (bind_vertex P) (GetParentVertexIDMap S) s2 \<noteq> Inl ShouldNotBeNew"
        by (rule foldE_never) (rule bind_vertex_never_new)
      ultimately show ?thesis using walk1 s1 reg by (simp add: domain_pass_def)
    next
      case bind: (Inr s3)
      note b = vertex_loop_effect [OF bind]
      have els: "elements (snd s3) = elements m1" using r b by simp
      have known: "set ns \<subseteq> dom (idx (fst s3))" using r b by blast
      have "foldE (relabel_element P) [0..<length (elements (snd s3))] s3 \<noteq> Inl ShouldNotBeNew"
      proof (rule second_walk_never_new, simp, intro ballI impI allI)
        fix i n
        assume i: "i \<in> set [0..<length (elements (snd s3))]"
          and leaf: "IsLeaf (elements (snd s3) ! i)"
          and n: "n < nv (GI P (geom (elements (snd s3) ! i)))"
        from i have "elements (snd s3) ! i \<in> set (elements m1)"
          unfolding els by simp
        with v1 leaf n have "node (elements (snd s3) ! i) ! n \<in> set ns"
          unfolding vertices_in_def by blast
        with known show "node (elements (snd s3) ! i) ! n \<in> dom (idx (fst s3))" by blast
      qed
      then show ?thesis using walk1 s1 reg bind by (simp add: domain_pass_def)
    qed
  qed
qed















lemma domain_example_run:
  "map_sum id domain_view (domain_pass edge_mesh domain_submesh [1] (fresh_submesh 0 3)) =
     Inr (14, [0, 1, 2, 3, 8, 9, 10, 11, 20, 21, 22, 23, 28, 30],
          [[0, 2, 4, 5, -1, -1, -1, -1], [2, 3, 6, 4, -1, -1, -1, -1],
           [3, 1, 7, 6, -1, -1, -1, -1]])"
  by code_simp

theorem domain_vertices_never_new_witness:
  "elements (fresh_submesh 0 3) = [] \<and>
   domain_pass edge_mesh domain_submesh [1] (fresh_submesh 0 3) \<noteq> Inl ShouldNotBeNew \<and>
   map_sum id domain_view (domain_pass edge_mesh domain_submesh [1] (fresh_submesh 0 3)) =
     Inr (14, [0, 1, 2, 3, 8, 9, 10, 11, 20, 21, 22, 23, 28, 30],
          [[0, 2, 4, 5, -1, -1, -1, -1], [2, 3, 6, 4, -1, -1, -1, -1],
           [3, 1, 7, 6, -1, -1, -1, -1]])"
proof -
  have fresh: "elements (fresh_submesh 0 3) = []" by (simp add: fresh_submesh_def)
  show ?thesis
    using domain_vertices_never_new [OF fresh, of edge_mesh domain_submesh "[1]"] fresh
      domain_example_run
    by blast
qed

subsection \<open>The discovery loop keeps the parent ids in step with the elements\<close>












subsection \<open>The permutation of the child slots\<close>

text \<open>
  C5, at a triangle found again with its nodes rotated: the stored order is (1, 2, 3), the new
  order is (2, 3, 1), and the parent holds the children 10, 11 and 12 at the corners 1, 2
  and 3 and the child 13 in the middle. Node 1 has the slot 0 under the old order and the
  slot 2 under the new one; after the step the slot 2 holds the child 11, not the child 10
  that was at the slot of node 1. The step stores at the old slot of a node the child from
  its new slot, which is the inverse of the relabeling. At an edge found again in the
  reverse direction, stored (0, 0, 1, 1) and new (1, 1, 0, 0), two entries of the local array
  are never written and are copied into the parent. In the discovery over the triangle
  refined twice, the coarse triangle (element 2) is created as (2, 3, 1) with the triangle
  (1, 4, 6) (element 1) in the slot 2 of the corner 1, and found again as (1, 2, 3); the step
  moves the child to the slot 1, the wiring of line 337 stores it in the slot 0 of the
  corner 1, and the coarse triangle ends with the same child in the slots 0 and 1.
\<close>

theorem child_permutation_inverted:
  "permute_children (FaceNodes 2 3 1 (-1)) (FaceNodes 1 2 3 (-1))
     [10, 11, 12, 13, -1, -1, -1, -1, -1, -1] = Inr [12, 10, 11, 13, -1, -1, -1, -1, -1, -1] \<and>
   first_match 1 (nodes (FaceNodes 1 2 3 (-1))) = Some 0 \<and>
   first_match 1 (nodes (FaceNodes 2 3 1 (-1))) = Some 2 \<and>
   [12, 10, 11, 13, -1, -1, -1, -1, -1, -1] ! 2 \<noteq> [10, 11, 12, 13, -1, -1, -1, -1, -1, -1 :: int] ! 0 \<and>
   permute_children (FaceNodes 1 1 0 0) (FaceNodes 0 0 1 1)
     [10, 11, -1, -1, -1, -1, -1, -1, -1, -1] = Inl UninitializedRead \<and>
   map_option (map_sum id (\<lambda>d. map (\<lambda>e. take 4 (child e)) (elements (mesh d))))
     (discovery triangle_mesh triangle_submesh [1] (fresh_submesh 0 1)) =
   Some (Inr [[-1, -1, -1, -1], [3, -1, -1, 0], [1, 1, -1, -1], [-1, -1, -1, -1]])"
  by code_simp

subsection \<open>The stable sort and the loop of the reordering pass\<close>

lemma stable_sort_Cons: "stable_sort lt (x # xs) = insert_stable lt x (stable_sort lt xs)"
  by (simp add: stable_sort_def)

lemma stable_sort_Nil: "stable_sort lt [] = []"
  by (simp add: stable_sort_def)

lemma is_sorted_tl: "is_sorted lt (x # xs) \<Longrightarrow> is_sorted lt xs"
  by (cases xs) auto

lemma stable_sort_sorted_id: "is_sorted lt xs \<Longrightarrow> stable_sort lt xs = xs"
proof (induction xs)
  case Nil
  show ?case by (simp add: stable_sort_Nil)
next
  case (Cons x xs)
  have tl: "stable_sort lt xs = xs"
    by (rule Cons.IH) (rule is_sorted_tl [OF Cons.prems])
  show ?case
  proof (cases xs)
    case Nil
    then show ?thesis by (simp add: stable_sort_def)
  next
    case (Cons y ys)
    with Cons.prems have "\<not> lt y x" by simp
    with Cons tl show ?thesis by (simp add: stable_sort_Cons)
  qed
qed

lemma insert_stable_hd:
  "insert_stable lt x ys \<noteq> [] \<and>
   (hd (insert_stable lt x ys) = x \<or> (ys \<noteq> [] \<and> hd (insert_stable lt x ys) = hd ys \<and> lt (hd ys) x))"
  by (cases ys) auto

lemma is_sorted_Cons_iff:
  "is_sorted lt (x # xs) = ((xs = [] \<or> \<not> lt (hd xs) x) \<and> is_sorted lt xs)"
  by (cases xs) auto

lemma insert_stable_sorted:
  assumes asym: "\<And>a b. lt a b \<Longrightarrow> \<not> lt b a"
  shows "is_sorted lt ys \<Longrightarrow> is_sorted lt (insert_stable lt x ys)"
proof (induction ys)
  case Nil
  show ?case by simp
next
  case (Cons y ys)
  show ?case
  proof (cases "lt y x")
    case False
    with Cons.prems show ?thesis by simp
  next
    case True
    have tl: "is_sorted lt (insert_stable lt x ys)"
      by (rule Cons.IH) (rule is_sorted_tl [OF Cons.prems])
    have "\<not> lt (hd (insert_stable lt x ys)) y"
      using insert_stable_hd [of lt x ys] True asym Cons.prems
      by (cases ys) auto
    with tl True insert_stable_hd [of lt x ys] show ?thesis
      by (simp add: is_sorted_Cons_iff)
  qed
qed

lemma stable_sort_is_sorted:
  assumes asym: "\<And>a b. lt a b \<Longrightarrow> \<not> lt b a"
  shows "is_sorted lt (stable_sort lt xs)"
proof (induction xs)
  case Nil
  show ?case by (simp add: stable_sort_Nil)
next
  case (Cons x xs)
  then show ?case
    using insert_stable_sorted [of lt, OF asym] by (simp add: stable_sort_Cons)
qed

lemma set_insert_stable: "set (insert_stable lt x ys) = insert x (set ys)"
  by (induction ys) auto


lemma set_stable_sort: "set (stable_sort lt xs) = set xs"
  by (induction xs) (simp_all add: stable_sort_Nil stable_sort_Cons set_insert_stable)


lemma lexicographical_compare_asym:
  "lexicographical_compare xs ys \<Longrightarrow> \<not> lexicographical_compare ys xs"
  by (induction xs ys rule: lexicographical_compare.induct) (auto split: if_splits)

lemma comp_elements_asym:
  "comp_elements els fns a b \<Longrightarrow> \<not> comp_elements els fns b a"
  using lexicographical_compare_asym by (auto simp: comp_elements_def split: if_splits)

lemma comp_elements_parent:
  "\<not> comp_elements els fns b a \<Longrightarrow> parent (els ! a) \<le> parent (els ! b)"
  by (auto simp: comp_elements_def split: if_splits)

lemma is_sorted_upt_adjacent:
  "is_sorted lt [m..<n] = (\<forall>i. m \<le> i \<and> Suc i < n \<longrightarrow> \<not> lt (Suc i) i)"
proof (induction "n - m" arbitrary: m)
  case 0
  then have "[m..<n] = []" by simp
  with 0 show ?case by auto
next
  case (Suc k)
  then have mn: "m < n" by simp
  show ?case
  proof (cases "Suc m < n")
    case False
    with mn have "[m..<n] = [m]" by (simp add: upt_rec)
    with False show ?thesis by auto
  next
    case True
    then have eq: "[m..<n] = m # Suc m # [Suc (Suc m)..<n]"
      by (simp add: upt_rec)
    have eq2: "Suc m # [Suc (Suc m)..<n] = [Suc m..<n]"
      using True by (simp add: upt_rec)
    have IH: "is_sorted lt [Suc m..<n] = (\<forall>i. Suc m \<le> i \<and> Suc i < n \<longrightarrow> \<not> lt (Suc i) i)"
      using Suc.hyps(1) [of "Suc m"] Suc.hyps(2) by simp
    have "is_sorted lt [m..<n] = is_sorted lt (m # Suc m # [Suc (Suc m)..<n])"
      using eq by simp
    also have "\<dots> = (\<not> lt (Suc m) m \<and> is_sorted lt (Suc m # [Suc (Suc m)..<n]))"
      by simp
    also have "\<dots> = (\<not> lt (Suc m) m \<and> is_sorted lt [Suc m..<n])"
      using eq2 by simp
    also have "\<dots> = (\<forall>i. m \<le> i \<and> Suc i < n \<longrightarrow> \<not> lt (Suc i) i)"
      unfolding IH using True by (auto simp: Suc_le_eq order_le_less) (metis Suc_lessI)
    finally show ?thesis .
  qed
qed

lemma parental_sorted_adjacent:
  "parental_sorted els fns \<Longrightarrow> Suc i < length els \<Longrightarrow> parent (els ! i) \<le> parent (els ! Suc i)"
  by (auto simp: parental_sorted_def is_sorted_upt_adjacent intro: comp_elements_parent)

lemma parental_sorted_mono:
  assumes "parental_sorted els fns" "i \<le> j" "j < length els"
  shows "parent (els ! i) \<le> parent (els ! j)"
  using assms(2,3)
proof (induction j)
  case 0
  then show ?case by simp
next
  case (Suc j)
  show ?case
  proof (cases "i = Suc j")
    case True
    then show ?thesis by simp
  next
    case False
    with Suc.prems have "i \<le> j" "j < length els" by simp_all
    then have "parent (els ! i) \<le> parent (els ! j)" using Suc.IH by simp
    moreover have "parent (els ! j) \<le> parent (els ! Suc j)"
      using parental_sorted_adjacent [OF assms(1)] Suc.prems by simp
    ultimately show ?thesis by simp
  qed
qed

lemma reorder_loop_exit_aux:
  "reorder_loop s = Some r \<Longrightarrow>
     (case r of Inl e \<Rightarrow> True
      | Inr s' \<Rightarrow> tables_fit s' \<and> parental_sorted (elements (fst s')) (snd s'))"
  by (rule reorder_loop.raw_induct [rotated 1, of s r]) (fastforce split: if_splits sum.splits)+

lemma reorder_loop_exit:
  "reorder_loop s = Some (Inr s') \<Longrightarrow> tables_fit s' \<and> parental_sorted (elements (fst s')) (snd s')"
  using reorder_loop_exit_aux [of s "Inr s'"] by simp


lemma map_update_same: "f y = f (xs ! i) \<Longrightarrow> map f (xs[i := y]) = map f xs"
  by (cases "i < length xs") (simp_all add: map_update list_eq_iff_nth_eq nth_list_update)

lemma child_loop_parent:
  "child_loop old_to_new i cs els = Inr els' \<Longrightarrow> map parent els' = map parent els"
proof (induction cs arbitrary: els)
  case Nil
  then show ?case by simp
next
  case (Cons c cs)
  show ?case
  proof (cases "child (els ! i) ! c < 0")
    case True
    with Cons.prems show ?thesis by simp
  next
    case False
    define ch' where "ch' = old_to_new ! nat (child (els ! i) ! c)"
    define els1 where "els1 = els[i := (els ! i)\<lparr>child := (child (els ! i))[c := int ch']\<rparr>]"
    define els2 where "els2 = els1[i := (els1 ! i)\<lparr>rank := min (rank (els1 ! i)) (rank (els1 ! ch'))\<rparr>]"
    from Cons.prems False have run: "child_loop old_to_new i cs els2 = Inr els'"
      by (simp add: Let_def ch'_def els1_def els2_def split: if_splits)
    have "map parent els2 = map parent els1"
      unfolding els2_def by (rule map_update_same) simp
    also have "\<dots> = map parent els"
      unfolding els1_def by (rule map_update_same) simp
    finally show ?thesis using Cons.IH [OF run] by simp
  qed
qed

lemma parents_map: "parents_from_minus_one els = (\<forall>p \<in> set (map parent els). -1 \<le> p)"
  by (auto simp: parents_from_minus_one_def)

lemma parents_update:
  "parents_from_minus_one els \<Longrightarrow> -1 \<le> parent e \<Longrightarrow> parents_from_minus_one (els[i := e])"
  unfolding parents_from_minus_one_def using set_update_subset_insert [of els i e] by auto

lemma relink_parent_parents:
  "relink_parent old_to_new i els = Inr els' \<Longrightarrow> parents_from_minus_one els \<Longrightarrow>
   parents_from_minus_one els'"
  by (auto simp: relink_parent_def Let_def split: if_splits intro!: parents_update)

lemma relink_element_parents:
  assumes "relink_element old_to_new i els = Inr els'" "parents_from_minus_one els"
  shows "parents_from_minus_one els'"
proof (cases "IsLeaf (els ! i)")
  case True
  with assms show ?thesis by (simp add: relink_element_def relink_parent_parents)
next
  case False
  with assms(1) obtain els1 where
    a: "child_loop old_to_new i [0..<length (child (els ! i))] (els[i := (els ! i)\<lparr>rank := INT_MAX\<rparr>]) = Inr els1"
    and b: "relink_parent old_to_new i els1 = Inr els'"
    by (auto simp: relink_element_def split: sum.splits)
  have "map parent els1 = map parent (els[i := (els ! i)\<lparr>rank := INT_MAX\<rparr>])"
    by (rule child_loop_parent [OF a])
  also have "\<dots> = map parent els" by (rule map_update_same) simp
  finally have "parents_from_minus_one els1" using assms(2) by (simp add: parents_map)
  with b show ?thesis by (rule relink_parent_parents)
qed

lemma relink_all_parents:
  "relink_all old_to_new is els = Inr els' \<Longrightarrow> parents_from_minus_one els \<Longrightarrow>
   parents_from_minus_one els'"
proof (induction "is" arbitrary: els)
  case Nil
  then show ?case by simp
next
  case (Cons i "is")
  from Cons.prems(1) obtain els1 where
    a: "relink_element old_to_new i els = Inr els1" and b: "relink_all old_to_new is els1 = Inr els'"
    by (auto split: sum.splits)
  show ?case by (rule Cons.IH [OF b relink_element_parents [OF a Cons.prems(2)]])
qed

lemma Permute_parents:
  "set indices \<subseteq> {0..<length els} \<Longrightarrow> parents_from_minus_one els \<Longrightarrow>
   parents_from_minus_one (Permute indices els)"
  by (auto simp: parents_from_minus_one_def Permute_def)

lemma reorder_pass_parents:
  assumes "reorder_pass s = Inr s'" "parents_from_minus_one (elements (fst s))"
  shows "parents_from_minus_one (elements (fst s'))"
proof -
  let ?n2o = "stable_sort (comp_elements (elements (fst s)) (snd s)) [0..<length (elements (fst s))]"
  from assms(1) obtain els where
    a: "relink_all (invert ?n2o) [0..<length (elements (fst s))] (Permute ?n2o (elements (fst s))) = Inr els"
    and b: "elements (fst s') = els"
    by (auto simp: reorder_pass_def Let_def split: sum.splits)
  have "parents_from_minus_one (Permute ?n2o (elements (fst s)))"
    by (rule Permute_parents) (simp_all add: set_stable_sort assms(2))
  with a b show ?thesis using relink_all_parents by blast
qed

lemma reorder_loop_parents_aux:
  "reorder_loop s = Some r \<Longrightarrow>
     parents_from_minus_one (elements (fst s)) \<longrightarrow>
     (case r of Inl e \<Rightarrow> True | Inr s' \<Rightarrow> parents_from_minus_one (elements (fst s')))"
proof (rule reorder_loop.raw_induct [rotated 1, of s r], assumption)
  fix f :: "ParNCSubMesh \<times> FaceNodes list \<Rightarrow> (error + ParNCSubMesh \<times> FaceNodes list) option"
    and s r
  assume IH: "\<And>x y. f x = Some y \<Longrightarrow> parents_from_minus_one (elements (fst x)) \<longrightarrow>
     (case y of Inl e \<Rightarrow> True | Inr s' \<Rightarrow> parents_from_minus_one (elements (fst s')))"
  assume step: "(if \<not> tables_fit s then Some (Inl OutOfRange)
      else if parental_sorted (elements (fst s)) (snd s) then Some (Inr s)
      else (case reorder_pass s of Inl e \<Rightarrow> Some (Inl e) | Inr s' \<Rightarrow> f s')) = Some r"
  show "parents_from_minus_one (elements (fst s)) \<longrightarrow>
     (case r of Inl e \<Rightarrow> True | Inr s' \<Rightarrow> parents_from_minus_one (elements (fst s')))"
  proof
    assume inv: "parents_from_minus_one (elements (fst s))"
    show "case r of Inl e \<Rightarrow> True | Inr s' \<Rightarrow> parents_from_minus_one (elements (fst s'))"
    proof (cases "\<not> tables_fit s \<or> parental_sorted (elements (fst s)) (snd s)")
      case True
      with step inv show ?thesis by (auto split: if_splits)
    next
      case False
      show ?thesis
      proof (cases "reorder_pass s")
        case (Inl e)
        with step False show ?thesis by auto
      next
        case (Inr s1)
        with step False have "f s1 = Some r" by simp
        moreover have "parents_from_minus_one (elements (fst s1))"
          by (rule reorder_pass_parents [OF Inr inv])
        ultimately show ?thesis using IH by blast
      qed
    qed
  qed
qed

text \<open>
  C2: when the reordering loop has terminated, the parent ids of adjacent elements do not
  decrease, and no element with a parent comes before a root. The parent references of the
  input are \<open>-1\<close> or larger, as the discovery loop leaves them.
\<close>

theorem reorder_parents_monotone:
  assumes "reorder_loop s = Some (Inr s')" and "parents_from_minus_one (elements (fst s))"
  shows "(\<forall>i. Suc i < length (elements (fst s')) \<longrightarrow>
            parent (elements (fst s') ! i) \<le> parent (elements (fst s') ! Suc i)) \<and>
         (\<forall>i j. i < j \<and> j < length (elements (fst s')) \<and> parent (elements (fst s') ! j) = -1 \<longrightarrow>
            parent (elements (fst s') ! i) = -1)"
proof -
  have sorted: "parental_sorted (elements (fst s')) (snd s')"
    using reorder_loop_exit [OF assms(1)] by simp
  have inv: "parents_from_minus_one (elements (fst s'))"
    using reorder_loop_parents_aux [OF assms(1)] assms(2) by simp
  have roots: "parent (elements (fst s') ! i) = -1"
    if "i < j" "j < length (elements (fst s'))" "parent (elements (fst s') ! j) = -1" for i j
  proof -
    have "parent (elements (fst s') ! i) \<le> -1"
      using parental_sorted_mono [OF sorted, of i j] that by simp
    moreover have "-1 \<le> parent (elements (fst s') ! i)"
      using inv that by (simp add: parents_from_minus_one_def)
    ultimately show ?thesis by simp
  qed
  show ?thesis
    using parental_sorted_adjacent [OF sorted] roots by blast
qed

text \<open>
  C4: the stable sort by \<^verbatim>\<open>comp_elements\<close> returns the identity permutation exactly on
  an element array that \<^verbatim>\<open>parental_sorted\<close> accepts; on such a state the loop returns
  at once with the state unchanged, and the state in which the loop ends is one on which the
  sort is the identity.
\<close>

theorem reorder_fixed_point:
  "(parental_sorted (elements (fst s)) (snd s) \<longleftrightarrow>
      stable_sort (comp_elements (elements (fst s)) (snd s)) [0..<length (elements (fst s))]
        = [0..<length (elements (fst s))]) \<and>
   (tables_fit s \<and> parental_sorted (elements (fst s)) (snd s) \<longrightarrow> reorder_loop s = Some (Inr s)) \<and>
   (reorder_loop s = Some (Inr s') \<longrightarrow>
      stable_sort (comp_elements (elements (fst s')) (snd s')) [0..<length (elements (fst s'))]
        = [0..<length (elements (fst s'))])"
proof (intro conjI impI)
  show "parental_sorted (elements (fst s)) (snd s) \<longleftrightarrow>
      stable_sort (comp_elements (elements (fst s)) (snd s)) [0..<length (elements (fst s))]
        = [0..<length (elements (fst s))]"
  proof
    assume "parental_sorted (elements (fst s)) (snd s)"
    then show "stable_sort (comp_elements (elements (fst s)) (snd s)) [0..<length (elements (fst s))]
        = [0..<length (elements (fst s))]"
      unfolding parental_sorted_def by (rule stable_sort_sorted_id)
  next
    assume eq: "stable_sort (comp_elements (elements (fst s)) (snd s)) [0..<length (elements (fst s))]
        = [0..<length (elements (fst s))]"
    have "is_sorted (comp_elements (elements (fst s)) (snd s))
       (stable_sort (comp_elements (elements (fst s)) (snd s)) [0..<length (elements (fst s))])"
      by (rule stable_sort_is_sorted) (rule comp_elements_asym)
    with eq show "parental_sorted (elements (fst s)) (snd s)"
      by (simp add: parental_sorted_def)
  qed
next
  assume "tables_fit s \<and> parental_sorted (elements (fst s)) (snd s)"
  then show "reorder_loop s = Some (Inr s)"
    by (subst reorder_loop.simps) simp
next
  assume "reorder_loop s = Some (Inr s')"
  then have "parental_sorted (elements (fst s')) (snd s')"
    using reorder_loop_exit by blast
  then show "stable_sort (comp_elements (elements (fst s')) (snd s')) [0..<length (elements (fst s'))]
        = [0..<length (elements (fst s'))]"
    unfolding parental_sorted_def by (rule stable_sort_sorted_id)
qed



















subsection \<open>Runs on the concrete states\<close>

lemma upt_5: "[0..<5] = [0, 1, 2, 3, 4]"
  by code_simp

lemma upt_10: "[0..<10] = [0, 1, 2, 3, 4, 5, 6, 7, 8, 9]"
  by code_simp

text \<open>
  One pass on the twice refined boundary edge, for any ranks \<open>r1\<close> and \<open>r2\<close> of the
  leaves and any rank \<open>r0\<close> that the element constructor gives: the pass brings the
  elements in order, so the loop ends after it, and the root ends with the minimum of the
  rank of its leaf child and of \<open>r0\<close>.
\<close>

lemma twice_refined_pass:
  "reorder_pass (twice_refined me r0 r1 r2) = Inr (twice_refined_sorted me r0 r1 r2)"
  by (simp add: reorder_pass_def twice_refined_def twice_refined_sorted_def
      twice_refined_elements_def leaf_face_def coarse_face_def Let_def stable_sort_def
      comp_elements_def invert_def Permute_def relink_element_def relink_parent_def IsLeaf_def
      upt_5 upt_10 numeral_nat)

lemma twice_refined_unsorted:
  "tables_fit (twice_refined me r0 r1 r2) \<and>
   \<not> parental_sorted (elements (fst (twice_refined me r0 r1 r2))) (snd (twice_refined me r0 r1 r2))"
  by (simp add: tables_fit_def parental_sorted_def twice_refined_def twice_refined_elements_def
      leaf_face_def coarse_face_def comp_elements_def upt_5 numeral_nat)

lemma twice_refined_sorted_sorted:
  "tables_fit (twice_refined_sorted me r0 r1 r2) \<and>
   parental_sorted (elements (fst (twice_refined_sorted me r0 r1 r2)))
     (snd (twice_refined_sorted me r0 r1 r2))"
  by (simp add: tables_fit_def parental_sorted_def twice_refined_sorted_def
      leaf_face_def coarse_face_def comp_elements_def upt_5 numeral_nat)

lemma twice_refined_loop:
  "reorder_loop (twice_refined me r0 r1 r2) = Some (Inr (twice_refined_sorted me r0 r1 r2))"
proof -
  have "reorder_loop (twice_refined me r0 r1 r2) = reorder_loop (twice_refined_sorted me r0 r1 r2)"
    by (subst reorder_loop.simps) (simp add: twice_refined_unsorted twice_refined_pass)
  also have "\<dots> = Some (Inr (twice_refined_sorted me r0 r1 r2))"
    by (subst reorder_loop.simps) (simp add: twice_refined_sorted_sorted)
  finally show ?thesis .
qed

lemma twice_refined_sorted_view:
  "view (twice_refined_sorted me r0 r1 r2) =
     ([(1, min (min INT_MAX r1) r0, -1, [r1, min (min INT_MAX r2) r2]), (0, r1, 0, []),
       (1, min (min INT_MAX r2) r2, 0, [r2, r2]), (0, r2, 2, []), (0, r2, 2, [])],
      [-1, 1, -1, 3, 4])"
  by (simp add: view_def twice_refined_sorted_def children_ranks_def leaf_face_def coarse_face_def)

lemma twice_refined_terminates: "\<exists>s'. reorder_loop (twice_refined 0 0 1 2) = Some (Inr s')"
  using twice_refined_loop by blast

lemma twice_refined_parents: "parents_from_minus_one (elements (fst (twice_refined me r0 r1 r2)))"
  by (simp add: parents_from_minus_one_def twice_refined_def twice_refined_elements_def
      leaf_face_def coarse_face_def)

theorem reorder_parents_monotone_witness:
  "\<exists>s'. reorder_loop (twice_refined 0 0 1 2) = Some (Inr s') \<and>
        parents_from_minus_one (elements (fst (twice_refined 0 0 1 2))) \<and>
        (\<forall>i. Suc i < length (elements (fst s')) \<longrightarrow>
            parent (elements (fst s') ! i) \<le> parent (elements (fst s') ! Suc i)) \<and>
        (\<forall>i j. i < j \<and> j < length (elements (fst s')) \<and> parent (elements (fst s') ! j) = -1 \<longrightarrow>
            parent (elements (fst s') ! i) = -1)"
proof -
  from twice_refined_terminates obtain s' where
    run: "reorder_loop (twice_refined 0 0 1 2) = Some (Inr s')" by blast
  show ?thesis
    using reorder_parents_monotone [OF run twice_refined_parents] run twice_refined_parents
    by blast
qed

lemma once_refined_sorted:
  "tables_fit once_refined \<and> parental_sorted (elements (fst once_refined)) (snd once_refined)"
  by code_simp

theorem reorder_fixed_point_witness:
  "tables_fit once_refined \<and>
   parental_sorted (elements (fst once_refined)) (snd once_refined) \<and>
   reorder_loop once_refined = Some (Inr once_refined) \<and>
   stable_sort (comp_elements (elements (fst once_refined)) (snd once_refined))
     [0..<length (elements (fst once_refined))] = [0..<length (elements (fst once_refined))]"
  using reorder_fixed_point [of once_refined once_refined] once_refined_sorted by blast



lemma edge_mesh_boundary_run:
  "map_option (map_sum id boundary_view)
     (boundary_pass edge_mesh edge_submesh [1] (fresh_submesh 0 3)) =
   Some (Inr ([(1, 0, -1, [1, 2]), (0, 1, 0, []), (1, 2, 0, [2, 2]), (0, 2, 2, []), (0, 2, 2, [])],
              [-1, 1, -1, 3, 4]))"
  by code_simp

text \<open>
  C6, at the twice refined boundary edge, which is the state in which the discovery loop
  leaves the boundary pass on the parent mesh \<open>edge_mesh\<close>: the loop terminates after one
  pass. The root is updated before its internal child, so it takes the rank that the child
  had before the pass (0, from the element constructor) and ends with rank 0, while its
  children end with the ranks 1 and 2. The internal child itself ends with the minimum 2 of
  its children. Each element is shown with its tag, rank, parent and the ranks of its
  children. By \<open>twice_refined_loop\<close> the same happens for every rank that the
  constructor may give: the root ends with the minimum of that rank and the rank of its leaf
  child.
\<close>

theorem stale_child_rank:
  "map_option (map_sum id view) (reorder_loop (twice_refined 0 0 1 2)) =
     Some (Inr ([(1, 0, -1, [1, 2]), (0, 1, 0, []), (1, 2, 0, [2, 2]), (0, 2, 2, []), (0, 2, 2, [])],
                [-1, 1, -1, 3, 4])) \<and>
   map_sum id view (reorder_pass (twice_refined 0 0 1 2)) =
     Inr ([(1, 0, -1, [1, 2]), (0, 1, 0, []), (1, 2, 0, [2, 2]), (0, 2, 2, []), (0, 2, 2, [])],
          [-1, 1, -1, 3, 4]) \<and>
   map_option (map_sum id boundary_view)
     (boundary_pass edge_mesh edge_submesh [1] (fresh_submesh 0 3)) =
     Some (Inr ([(1, 0, -1, [1, 2]), (0, 1, 0, []), (1, 2, 0, [2, 2]), (0, 2, 2, []), (0, 2, 2, [])],
                [-1, 1, -1, 3, 4]))"
  by code_simp

subsection \<open>The identity maps\<close>









end
